theory Spec2Isabelle
  imports Main "HOL-Library.Word"
begin

section \<open>The radio gateway: data model\<close>

text \<open>
  The development follows the handler file of the gateway that relays streams through a
  buffered writer in a separate goroutine (\<^verbatim>\<open>getStationsHandler\<close>,
  \<^verbatim>\<open>streamStationHandler\<close>, \<^verbatim>\<open>logICYHeaders\<close>, \<^verbatim>\<open>getContentType\<close>). The repository's
  \<^verbatim>\<open>main.go\<close> holds another variant of the two handlers, which copies the stream in the
  handler itself; it is not modelled here. Go strings are byte strings and are modelled as
  \<^typ>\<open>string\<close>; a body is a list of bytes; every library call that can fail returns a sum
  with the error on the left. The Go library functions that the handlers call
  (\<^verbatim>\<open>strings\<close>, \<^verbatim>\<open>unicode/utf8\<close>, \<^verbatim>\<open>net/http\<close> headers, \<^verbatim>\<open>bufio\<close>, \<^verbatim>\<open>io.Copy\<close>) are
  modelled after the library's own code; what the network answers and the Unicode case
  tables are inputs.
\<close>

type_synonym byte = "8 word"
type_synonym bytes = "byte list"

text \<open>
  Go errors: the three sentinel values the copy loop distinguishes or produces, and any
  other error with its message.
\<close>

datatype err = EOF | ErrShortWrite | ErrNoProgress | ErrorString string

record Config =
  APIEndpoint :: string
  Port :: string
  SSLCert :: string
  SSLKey :: string
  EnableHTTPS :: bool

record RadioStation =
  ID :: int
  Name :: string
  URL :: string

record StationResponse =
  RName :: string

section \<open>UTF-8 and case folding\<close>

text \<open>
  A Go string is a byte string; where the library reads it as text it decodes UTF-8.
  \<^verbatim>\<open>utf8.DecodeRuneInString\<close> returns the rune at the front and its width; a byte sequence
  that is no valid encoding (a stray byte, a truncated or overlong form, a surrogate, a
  value above U+10FFFF) decodes to \<^verbatim>\<open>RuneError\<close> with width 1. The third component tells
  whether the encoding was valid. Bytes are the numbers 0 to 255.
\<close>

definition RuneError :: nat where
  "RuneError = 65533"

definition continuationByte :: "nat \<Rightarrow> bool" where
  "continuationByte b = (128 \<le> b \<and> b \<le> 191)"

definition acceptSecond :: "nat \<Rightarrow> nat \<Rightarrow> bool" where
  "acceptSecond s0 s1 =
     (if s0 = 224 then 160 \<le> s1 \<and> s1 \<le> 191
      else if s0 = 237 then 128 \<le> s1 \<and> s1 \<le> 159
      else if s0 = 240 then 144 \<le> s1 \<and> s1 \<le> 191
      else if s0 = 244 then 128 \<le> s1 \<and> s1 \<le> 143
      else continuationByte s1)"

definition invalidRune :: "nat \<times> nat \<times> bool" where
  "invalidRune = (RuneError, 1, False)"

definition DecodeRune :: "nat list \<Rightarrow> nat \<times> nat \<times> bool" where
  "DecodeRune s =
     (case s of
        [] \<Rightarrow> (RuneError, 0, False)
      | s0 # t1 \<Rightarrow>
          if s0 < 128 then (s0, 1, True)
          else if s0 < 194 \<or> 244 < s0 then invalidRune
          else (case t1 of
                  [] \<Rightarrow> invalidRune
                | s1 # t2 \<Rightarrow>
                    if \<not> acceptSecond s0 s1 then invalidRune
                    else if s0 \<le> 223 then ((s0 mod 32) * 64 + s1 mod 64, 2, True)
                    else (case t2 of
                            [] \<Rightarrow> invalidRune
                          | s2 # t3 \<Rightarrow>
                              if \<not> continuationByte s2 then invalidRune
                              else if s0 \<le> 239
                              then ((s0 mod 16) * 4096 + (s1 mod 64) * 64 + s2 mod 64, 3, True)
                              else (case t3 of
                                      [] \<Rightarrow> invalidRune
                                    | s3 # t4 \<Rightarrow>
                                        if \<not> continuationByte s3 then invalidRune
                                        else ((s0 mod 8) * 262144 + (s1 mod 64) * 4096
                                                + (s2 mod 64) * 64 + s3 mod 64, 4, True)))))"

text \<open>
  The runes of a byte string, as a \<^verbatim>\<open>range\<close> loop over the string yields them, and
  \<^verbatim>\<open>utf8.ValidString\<close>: every rune of the string is validly encoded.
\<close>

function runes :: "nat list \<Rightarrow> nat list" where
  "runes [] = []"
| "runes (s0 # s) = (case DecodeRune (s0 # s) of (r, n, ok) \<Rightarrow> r # runes (drop (n - 1) s))"
  by pat_completeness auto
termination
  by (relation "measure length") auto

function ValidBytes :: "nat list \<Rightarrow> bool" where
  "ValidBytes [] = True"
| "ValidBytes (s0 # s) =
     (case DecodeRune (s0 # s) of (r, n, ok) \<Rightarrow> ok \<and> ValidBytes (drop (n - 1) s))"
  by pat_completeness auto
termination
  by (relation "measure length") auto

definition bytesOf :: "string \<Rightarrow> nat list" where
  "bytesOf s = map of_char s"

definition ValidString :: "string \<Rightarrow> bool" where
  "ValidString s = ValidBytes (bytesOf s)"

text \<open>
  \<^verbatim>\<open>strings.EqualFold\<close>. Two runes agree when they are equal; when both are ASCII, when
  the smaller one is an upper-case letter and the larger one is that letter plus
  \<^verbatim>\<open>'a' - 'A'\<close>; otherwise when the larger one lies on the fold orbit of the smaller one,
  which the library finds by walking \<^verbatim>\<open>unicode.SimpleFold\<close> from the smaller rune. The
  orbits come from the Unicode tables of the library, which are not part of the
  repository and are a parameter here: \<open>caseFold\<close> maps a rune from U+0080 on to the
  representative of its orbit, the rune that simple case folding maps it to (\<open>k\<close> for the
  Kelvin sign U+212A, U+00F6 for U+00D6); an ASCII rune is represented by its lower-case
  form. Two runes lie on one orbit when their representatives are equal.

  The function first compares byte by byte while both strings show ASCII bytes; at the
  first byte from 0x80 on in either string it continues rune by rune on the rest of both
  strings. The strings agree when all runes agree and both end together.
\<close>

definition runeEq :: "(nat \<Rightarrow> nat) \<Rightarrow> nat \<Rightarrow> nat \<Rightarrow> bool" where
  "runeEq caseFold a b =
     (let sr = min a b; tr = max a b in
      if tr = sr then True
      else if tr < 128 then 65 \<le> sr \<and> sr \<le> 90 \<and> tr = sr + 32
      else (if sr < 128 then (if 65 \<le> sr \<and> sr \<le> 90 then sr + 32 else sr) else caseFold sr)
             = caseFold tr)"

fun hasUnicode :: "(nat \<Rightarrow> nat) \<Rightarrow> nat list \<Rightarrow> nat list \<Rightarrow> bool" where
  "hasUnicode caseFold [] t = (t = [])"
| "hasUnicode caseFold (sr # s) [] = False"
| "hasUnicode caseFold (sr # s) (tr # t) = (runeEq caseFold sr tr \<and> hasUnicode caseFold s t)"

fun EqualFold_bytes :: "(nat \<Rightarrow> nat) \<Rightarrow> nat list \<Rightarrow> nat list \<Rightarrow> bool" where
  "EqualFold_bytes caseFold [] [] = True"
| "EqualFold_bytes caseFold [] (tr # t) = False"
| "EqualFold_bytes caseFold (sr # s) [] = False"
| "EqualFold_bytes caseFold (sr # s) (tr # t) =
     (if 128 \<le> sr \<or> 128 \<le> tr
      then hasUnicode caseFold (runes (sr # s)) (runes (tr # t))
      else runeEq caseFold sr tr \<and> EqualFold_bytes caseFold s t)"

definition EqualFold :: "(nat \<Rightarrow> nat) \<Rightarrow> string \<Rightarrow> string \<Rightarrow> bool" where
  "EqualFold caseFold s t = EqualFold_bytes caseFold (bytesOf s) (bytesOf t)"

section \<open>Station resolution\<close>

text \<open>
  The lookup loop of \<^verbatim>\<open>streamStationHandler\<close>: it walks the stations in order, stores
  the first one whose name folds to the requested name and breaks. \<^term>\<open>None\<close> stands for
  \<^verbatim>\<open>found == false\<close> (the zero-valued \<^verbatim>\<open>targetStation\<close> is then never read).
\<close>

fun findStation :: "(nat \<Rightarrow> nat) \<Rightarrow> RadioStation list \<Rightarrow> string \<Rightarrow> RadioStation option" where
  "findStation caseFold [] stationName = None"
| "findStation caseFold (station # stations) stationName =
     (if EqualFold caseFold (Name station) stationName then Some station
      else findStation caseFold stations stationName)"

section \<open>Content type of the relayed stream\<close>

text \<open>
  \<^verbatim>\<open>http.Header\<close> is a map from canonical keys to value lists; \<^verbatim>\<open>Get\<close> canonicalises
  the key it is given and returns the first value, or the empty string.
\<close>

type_synonym Header = "string \<rightharpoonup> string list"

definition isLower :: "char \<Rightarrow> bool" where
  "isLower c = (97 \<le> (of_char c :: nat) \<and> (of_char c :: nat) \<le> 122)"

definition isUpper :: "char \<Rightarrow> bool" where
  "isUpper c = (65 \<le> (of_char c :: nat) \<and> (of_char c :: nat) \<le> 90)"

definition isDigit :: "char \<Rightarrow> bool" where
  "isDigit c = (48 \<le> (of_char c :: nat) \<and> (of_char c :: nat) \<le> 57)"

definition validHeaderFieldByte :: "char \<Rightarrow> bool" where
  "validHeaderFieldByte c =
     (isLower c \<or> isUpper c \<or> isDigit c \<or> c \<in> set ''!#$%&*+-.^_`|~''
      \<or> of_char c = (39 :: nat))"

fun canonLoop :: "bool \<Rightarrow> string \<Rightarrow> string" where
  "canonLoop upper [] = []"
| "canonLoop upper (c # cs) =
     (let c' = (if upper \<and> isLower c then char_of ((of_char c :: nat) - 32)
                else if \<not> upper \<and> isUpper c then char_of ((of_char c :: nat) + 32)
                else c)
      in c' # canonLoop (c' = CHR ''-'') cs)"

definition CanonicalMIMEHeaderKey :: "string \<Rightarrow> string" where
  "CanonicalMIMEHeaderKey s =
     (if list_all validHeaderFieldByte s then canonLoop True s else s)"

definition Header_Get :: "Header \<Rightarrow> string \<Rightarrow> string" where
  "Header_Get h key =
     (case h (CanonicalMIMEHeaderKey key) of
        None \<Rightarrow> []
      | Some [] \<Rightarrow> []
      | Some (v # vs) \<Rightarrow> v)"

text \<open>\<^verbatim>\<open>strings.HasPrefix\<close> and \<^verbatim>\<open>strings.Contains\<close>.\<close>

fun HasPrefix :: "string \<Rightarrow> string \<Rightarrow> bool" where
  "HasPrefix s [] = True"
| "HasPrefix [] (p # ps) = False"
| "HasPrefix (c # cs) (p # ps) = (c = p \<and> HasPrefix cs ps)"

fun Contains :: "string \<Rightarrow> string \<Rightarrow> bool" where
  "Contains [] substr = (substr = [])"
| "Contains (c # cs) substr = (HasPrefix (c # cs) substr \<or> Contains cs substr)"

definition contentTypes :: "string list" where
  "contentTypes = [''audio/aac'', ''audio/mpeg'', ''audio/ogg'', ''audio/wav'']"

text \<open>The loop over \<^verbatim>\<open>contentTypes\<close>: the first entry contained in the bitrate header.\<close>

fun firstContained :: "string list \<Rightarrow> string \<Rightarrow> string option" where
  "firstContained [] br = None"
| "firstContained (ct # cts) br =
     (if Contains br ct then Some ct else firstContained cts br)"


section \<open>Upstream body and client connection\<close>

text \<open>
  The upstream body is an \<^verbatim>\<open>io.Reader\<close>. What the transport will deliver is a list of
  read events, each a block of bytes with the error reported along with it (\<^term>\<open>None\<close>
  for \<^verbatim>\<open>nil\<close>). \<^verbatim>\<open>Read\<close> into a slice of \<open>n\<close> bytes returns the whole block when it
  fits and its first \<open>n\<close> bytes otherwise, leaving the remainder (and the error) for the
  next call. When no event is left the read never returns.
\<close>

type_synonym reader = "(bytes \<times> err option) list"

datatype readResult = Blocks | Data bytes "err option" reader

fun Read :: "reader \<Rightarrow> nat \<Rightarrow> readResult" where
  "Read [] n = Blocks"
| "Read ((d, e) # r) n =
     (if length d \<le> n then Data d e r
      else Data (take n d) None ((drop n d, e) # r))"

record Response =
  Header :: Header
  Body :: reader

text \<open>
  The client side of the connection (\<^verbatim>\<open>c.Writer\<close>): the bytes received so far, whether
  the response header has gone out, and how many more bytes the connection accepts
  before writes fail (\<^term>\<open>None\<close>: it never fails). A failing write delivers the bytes
  that still fit and reports an error.
\<close>

record ClientWriter =
  received :: bytes
  headerWritten :: bool
  room :: "nat option"

definition Write :: "ClientWriter \<Rightarrow> bytes \<Rightarrow> nat \<times> err option \<times> ClientWriter" where
  "Write w p =
     (case room w of
        None \<Rightarrow> (length p, None, w\<lparr>received := received w @ p, headerWritten := True\<rparr>)
      | Some k \<Rightarrow>
          if length p \<le> k
          then (length p, None,
                w\<lparr>received := received w @ p, headerWritten := True,
                   room := Some (k - length p)\<rparr>)
          else (k, Some (ErrorString ''write: broken pipe''),
                w\<lparr>received := received w @ take k p, headerWritten := True,
                   room := Some 0\<rparr>))"

section \<open>The buffered writer and the copy\<close>

text \<open>
  \<^verbatim>\<open>bufio.Writer\<close>: the sticky error, the filled part of the buffer, the buffer's length
  and the underlying writer. \<^verbatim>\<open>NewWriterSize\<close> replaces a non-positive size by the
  default of 4096 bytes.
\<close>

record Writer =
  berr :: "err option"
  bbuf :: bytes
  bsize :: nat
  bwr :: ClientWriter

definition NewWriterSize :: "ClientWriter \<Rightarrow> int \<Rightarrow> Writer" where
  "NewWriterSize w sz =
     \<lparr>berr = None, bbuf = [], bsize = (if sz \<le> 0 then 4096 else nat sz), bwr = w\<rparr>"

definition Available :: "Writer \<Rightarrow> nat" where
  "Available b = bsize b - length (bbuf b)"

definition Flush :: "Writer \<Rightarrow> err option \<times> Writer" where
  "Flush b =
     (case berr b of
        Some e \<Rightarrow> (Some e, b)
      | None \<Rightarrow>
          if bbuf b = [] then (None, b)
          else (case Write (bwr b) (bbuf b) of
                  (n, e, w') \<Rightarrow>
                    (case (if n < length (bbuf b) \<and> e = None then Some ErrShortWrite else e) of
                       Some x \<Rightarrow> (Some x, b\<lparr>berr := Some x, bbuf := drop n (bbuf b), bwr := w'\<rparr>)
                     | None \<Rightarrow> (None, b\<lparr>bbuf := [], bwr := w'\<rparr>))))"

text \<open>
  The inner loop of \<^verbatim>\<open>ReadFrom\<close>: it reads into the free part of the buffer until a
  read returns bytes or an error, and gives up after \<^verbatim>\<open>maxConsecutiveEmptyReads\<close>
  empty reads.
\<close>

definition maxConsecutiveEmptyReads :: nat where
  "maxConsecutiveEmptyReads = 100"

datatype readLoopResult = NoProgress | Never | Got bytes "err option" reader

function readLoop :: "reader \<Rightarrow> nat \<Rightarrow> nat \<Rightarrow> readLoopResult" where
  "readLoop r n nr =
     (if nr < maxConsecutiveEmptyReads then
        (case Read r n of
           Blocks \<Rightarrow> Never
         | Data d e r' \<Rightarrow>
             if d \<noteq> [] \<or> e \<noteq> None then Got d e r' else readLoop r' n (Suc nr))
      else NoProgress)"
  by pat_completeness auto
termination
  by (relation "measure (\<lambda>(r, n, nr). maxConsecutiveEmptyReads - nr)") auto

declare readLoop.simps [simp del]

text \<open>
  Every read that the loop accepts makes the list of pending read events smaller in this
  measure, which is what makes the copy loop terminate.
\<close>

definition weight :: "reader \<Rightarrow> nat" where
  "weight r = sum_list (map (\<lambda>(d, e). Suc (length d)) r)"

lemma Read_weight:
  "Read r n = Data d e r' \<Longrightarrow>
     weight r' \<le> weight r \<and> (d \<noteq> [] \<or> e \<noteq> None \<longrightarrow> weight r' < weight r)"
  by (cases r) (auto simp: weight_def split: if_splits)

lemma readLoop_weight:
  "readLoop r n nr = Got d e r' \<Longrightarrow> weight r' < weight r"
proof (induction r n nr rule: readLoop.induct)
  case (1 r n nr)
  show ?case
  proof (cases "Read r n")
    case Blocks
    with "1.prems" show ?thesis by (simp add: readLoop.simps split: if_splits)
  next
    case (Data d0 e0 r0)
    note W = Read_weight [OF Data]
    show ?thesis
    proof (cases "d0 \<noteq> [] \<or> e0 \<noteq> None")
      case True
      with "1.prems" Data have "r' = r0"
        by (simp add: readLoop.simps split: if_splits)
      with W True show ?thesis by simp
    next
      case False
      with "1.prems" Data have lt: "nr < maxConsecutiveEmptyReads"
        and rec: "readLoop r0 n (Suc nr) = Got d e r'"
        by (simp_all add: readLoop.simps split: if_splits)
      from "1.IH" [OF lt Data _ rec] False have "weight r' < weight r0" by simp
      with W show ?thesis by simp
    qed
  qed
qed

text \<open>
  \<^verbatim>\<open>(*bufio.Writer).ReadFrom\<close>, which \<^verbatim>\<open>io.Copy\<close> calls because the destination is a
  \<^verbatim>\<open>bufio.Writer\<close> and neither the body nor the client writer offers a shortcut. Each
  round flushes a full buffer, reads into the free part and stops at the first error; at
  \<^verbatim>\<open>io.EOF\<close> a buffer that is exactly full is flushed and the error becomes \<^verbatim>\<open>nil\<close>.
  The byte count that the library also returns is discarded by the caller and left out.
  \<^term>\<open>Hangs\<close>: a read never returned.
\<close>

datatype copyEnd = Hangs | Returns "err option"

function ReadFrom_loop :: "Writer \<Rightarrow> reader \<Rightarrow> copyEnd \<times> Writer" where
  "ReadFrom_loop b r =
     (case (if Available b = 0 then Flush b else (None, b)) of
        (Some err1, b1) \<Rightarrow> (Returns (Some err1), b1)
      | (None, b1) \<Rightarrow>
          (case readLoop r (Available b1) 0 of
             NoProgress \<Rightarrow> (Returns (Some ErrNoProgress), b1)
           | Never \<Rightarrow> (Hangs, b1)
           | Got d e r' \<Rightarrow>
               (case e of
                  None \<Rightarrow> ReadFrom_loop (b1\<lparr>bbuf := bbuf b1 @ d\<rparr>) r'
                | Some x \<Rightarrow>
                    if x = EOF then
                      (if Available (b1\<lparr>bbuf := bbuf b1 @ d\<rparr>) = 0
                       then (case Flush (b1\<lparr>bbuf := bbuf b1 @ d\<rparr>) of
                               (e3, b3) \<Rightarrow> (Returns e3, b3))
                       else (Returns None, b1\<lparr>bbuf := bbuf b1 @ d\<rparr>))
                    else (Returns (Some x), b1\<lparr>bbuf := bbuf b1 @ d\<rparr>))))"
  by pat_completeness auto
termination
  apply (relation "measure (\<lambda>(b, r). weight r)")
   apply simp
  apply (auto dest: readLoop_weight)
  done

declare ReadFrom_loop.simps [simp del]

definition io_Copy :: "Writer \<Rightarrow> reader \<Rightarrow> copyEnd \<times> Writer" where
  "io_Copy dst src =
     (case berr dst of
        Some e \<Rightarrow> (Returns (Some e), dst)
      | None \<Rightarrow> ReadFrom_loop dst src)"

section \<open>The copy goroutine and the handler's select\<close>

text \<open>
  The goroutine of \<^verbatim>\<open>streamStationHandler\<close>. Its two channels are modelled by the
  signals it has raised, in order: a send on \<^verbatim>\<open>errChan\<close> (buffered, so the send never
  waits) and the deferred \<^verbatim>\<open>close(done)\<close>, which runs on every return. The result of the
  final \<^verbatim>\<open>Flush\<close> is dropped, as in the source. A copy that hangs raises nothing.
\<close>

datatype signal = SendErr err | CloseDone

definition copyTask :: "ClientWriter \<Rightarrow> reader \<Rightarrow> signal list \<times> Writer" where
  "copyTask cw src =
     (let buffWriter = NewWriterSize cw (32 * 1024) in
      case io_Copy buffWriter src of
        (Hangs, b) \<Rightarrow> ([], b)
      | (Returns (Some e), b) \<Rightarrow> ([SendErr e, CloseDone], b)
      | (Returns None, b) \<Rightarrow> (case Flush b of (e', b') \<Rightarrow> ([CloseDone], b')))"

text \<open>
  The \<^verbatim>\<open>select\<close> of the handler over \<^verbatim>\<open>errChan\<close>, \<^verbatim>\<open>c.Done()\<close> and \<^verbatim>\<open>done\<close>: the cases
  that can be taken, given what the goroutine raises and whether the client goes away.
  Go picks any ready case, so each listed case is a possible run; the empty list means
  that the handler waits forever.
\<close>

datatype selected = FromErrChan err | FromCtxDone | FromDone

fun errCases :: "signal list \<Rightarrow> selected list" where
  "errCases [] = []"
| "errCases (SendErr e # sigs) = FromErrChan e # errCases sigs"
| "errCases (CloseDone # sigs) = errCases sigs"

definition selectCases :: "signal list \<Rightarrow> bool \<Rightarrow> selected list" where
  "selectCases sigs gone =
     errCases sigs @ (if gone then [FromCtxDone] else [])
       @ (if CloseDone \<in> set sigs then [FromDone] else [])"

section \<open>Metrics, trace and replies\<close>

text \<open>
  The three Prometheus collectors are process-wide state. The handler's effects are
  threaded through a state that holds their values and, for the order of effects, the
  trace of what was done. Counter values are whole numbers (the library stores them as
  floats, which is exact for every count a run can reach).
\<close>

record Metrics =
  stationRequests :: "string \<Rightarrow> nat"
  streamErrors :: nat
  activeStreams :: int

datatype event =
    StationRequestsInc string
  | StreamErrorsInc
  | ActiveStreamsInc
  | ActiveStreamsDec
  | HttpGet string
  | ClientDo string
  | CloseBody string
  | Log string

record State =
  metrics :: Metrics
  trace :: "event list"

definition emit :: "event \<Rightarrow> State \<Rightarrow> State" where
  "emit ev s = s\<lparr>trace := trace s @ [ev]\<rparr>"

definition stationRequests_Inc :: "string \<Rightarrow> State \<Rightarrow> State" where
  "stationRequests_Inc l s =
     emit (StationRequestsInc l)
       (s\<lparr>metrics := (metrics s)\<lparr>stationRequests :=
            (stationRequests (metrics s))(l := Suc (stationRequests (metrics s) l))\<rparr>\<rparr>)"

definition streamErrors_Inc :: "State \<Rightarrow> State" where
  "streamErrors_Inc s =
     emit StreamErrorsInc
       (s\<lparr>metrics := (metrics s)\<lparr>streamErrors := Suc (streamErrors (metrics s))\<rparr>\<rparr>)"

definition activeStreams_Inc :: "State \<Rightarrow> State" where
  "activeStreams_Inc s =
     emit ActiveStreamsInc
       (s\<lparr>metrics := (metrics s)\<lparr>activeStreams := activeStreams (metrics s) + 1\<rparr>\<rparr>)"

definition activeStreams_Dec :: "State \<Rightarrow> State" where
  "activeStreams_Dec s =
     emit ActiveStreamsDec
       (s\<lparr>metrics := (metrics s)\<lparr>activeStreams := activeStreams (metrics s) - 1\<rparr>\<rparr>)"

text \<open>JSON values, and what \<^verbatim>\<open>c.JSON\<close> sends: a status, the JSON content type, a body.\<close>

datatype json = JNull | JString string | JArray "json list" | JObject "(string \<times> json) list"

record Reply =
  replyStatus :: nat
  replyHeader :: "(string \<times> string) list"
  replyBody :: "json option"

definition c_JSON :: "nat \<Rightarrow> json \<Rightarrow> Reply" where
  "c_JSON code obj =
     \<lparr>replyStatus = code,
      replyHeader = [(''Content-Type'', ''application/json; charset=utf-8'')],
      replyBody = Some obj\<rparr>"

definition gin_H_error :: "string \<Rightarrow> json" where
  "gin_H_error msg = JObject [(''error'', JString msg)]"

section \<open>The world outside the handlers\<close>

text \<open>
  What lies outside the repository is an input of the model: the answers of the network
  and the Unicode fold table of the library (\<^term>\<open>unicodeFold\<close>, see \<^const>\<open>runeEq\<close>).
  \<^verbatim>\<open>http.Get\<close> on the directory endpoint fails or yields a response whose body the JSON decoder rejects or
  decodes to a station list; \<^verbatim>\<open>http.NewRequest\<close> rejects a URL it cannot parse;
  \<^verbatim>\<open>http.DefaultClient.Do\<close> fails or yields the upstream response. \<^term>\<open>clientWriter\<close>
  is the client's connection at the start of the request and \<^term>\<open>ctxDone\<close> tells whether
  the channel of \<^verbatim>\<open>c.Done()\<close> becomes ready while the handler waits (whether it ever
  does depends on how the gin engine is set up; both answers are covered).
\<close>

record Request =
  Method :: string
  ReqURL :: string
  ReqHeader :: Header

definition Header_Set :: "Header \<Rightarrow> string \<Rightarrow> string \<Rightarrow> Header" where
  "Header_Set h key v = h(CanonicalMIMEHeaderKey key \<mapsto> [v])"

record World =
  unicodeFold :: "nat \<Rightarrow> nat"
  http_Get :: "string \<Rightarrow> err + (err + RadioStation list)"
  http_NewRequest :: "string \<Rightarrow> string \<Rightarrow> err + Request"
  client_Do :: "Request \<Rightarrow> err + Response"
  clientWriter :: ClientWriter
  ctxDone :: bool

section \<open>The station listing\<close>

text \<open>
  A Go slice is \<^verbatim>\<open>nil\<close> until something is appended to it, and the JSON encoder writes a
  \<^verbatim>\<open>nil\<close> slice as \<^verbatim>\<open>null\<close> and any other slice as an array. \<^term>\<open>None\<close> is the \<^verbatim>\<open>nil\<close>
  slice.
\<close>

type_synonym 'a slice = "'a list option"

definition append_slice :: "'a slice \<Rightarrow> 'a \<Rightarrow> 'a slice" where
  "append_slice sl x = (case sl of None \<Rightarrow> Some [x] | Some xs \<Rightarrow> Some (xs @ [x]))"

definition json_StationResponse :: "StationResponse \<Rightarrow> json" where
  "json_StationResponse r = JObject [(''name'', JString (RName r))]"

definition json_slice :: "StationResponse slice \<Rightarrow> json" where
  "json_slice sl = (case sl of None \<Rightarrow> JNull | Some xs \<Rightarrow> JArray (map json_StationResponse xs))"

fun projectStations :: "StationResponse slice \<Rightarrow> RadioStation list \<Rightarrow> StationResponse slice" where
  "projectStations response [] = response"
| "projectStations response (station # stations) =
     projectStations (append_slice response \<lparr>RName = Name station\<rparr>) stations"

definition getStationsHandler :: "Config \<Rightarrow> World \<Rightarrow> Reply" where
  "getStationsHandler config world =
     (case http_Get world (APIEndpoint config) of
        Inl e \<Rightarrow> c_JSON 500 (gin_H_error ''Failed to fetch stations'')
      | Inr resp \<Rightarrow>
          (case resp of
             Inl e \<Rightarrow> c_JSON 500 (gin_H_error ''Failed to parse stations'')
           | Inr stations \<Rightarrow> c_JSON 200 (json_slice (projectStations None stations))))"

section \<open>The stream handler\<close>

definition getContentType :: "Response \<Rightarrow> string" where
  "getContentType resp =
     (let contentType = Header_Get (Header resp) ''Content-Type'' in
      if contentType = [] then
        (case firstContained contentTypes (Header_Get (Header resp) ''icy-br'') of
           Some ct \<Rightarrow> ct
         | None \<Rightarrow> ''application/octet-stream'')
      else contentType)"

definition icyHeaders :: "string list" where
  "icyHeaders = [''icy-pub'', ''icy-description'', ''icy-url'', ''icy-name'', ''icy-genre'',
                 ''icy-br'', ''icy-metaint'', ''Content-Type'']"

fun logHeaderLoop :: "Response \<Rightarrow> string list \<Rightarrow> State \<Rightarrow> State" where
  "logHeaderLoop resp [] s = s"
| "logHeaderLoop resp (header # headers) s =
     logHeaderLoop resp headers
       (if Header_Get (Header resp) header \<noteq> []
        then emit (Log (header @ '': '' @ Header_Get (Header resp) header)) s
        else s)"

definition logICYHeaders :: "Response \<Rightarrow> State \<Rightarrow> State" where
  "logICYHeaders resp s = logHeaderLoop resp icyHeaders (emit (Log ''Stream Headers:'') s)"

text \<open>
  A run of the handler ends in one of these ways. \<^term>\<open>Panicked\<close> is a panic raised in
  the handler and caught by the recovery middleware; \<^term>\<open>NeverReturns\<close> is the handler
  waiting in its \<^verbatim>\<open>select\<close> with no case ever ready.
\<close>

datatype exitPath =
    Panicked | FetchFailed | ParseFailed | StationNotFound | RequestFailed | ConnectFailed
  | StreamError err | Cancelled | Completed | NeverReturns

record Outcome =
  reply :: Reply
  final :: State
  exitPath :: exitPath
  delivered :: "ClientWriter option"

text \<open>
  The part of the handler from the upstream response on: headers, the gauge with its
  deferred decrement, the goroutine, the \<^verbatim>\<open>select\<close> and the deferred calls. One outcome
  per case the \<^verbatim>\<open>select\<close> can take. \<^verbatim>\<open>AbortWithStatus\<close> changes the status only while
  nothing has been written to the client. The client's bytes are known when the
  goroutine has ended, and left open (\<^term>\<open>None\<close>) when the handler returns on
  cancellation with the copy still running.
\<close>

definition streamReply :: "nat \<Rightarrow> Response \<Rightarrow> Reply" where
  "streamReply code streamResp =
     \<lparr>replyStatus = code,
      replyHeader = [(''Content-Type'', getContentType streamResp),
                     (''Transfer-Encoding'', ''chunked'')],
      replyBody = None\<rparr>"

definition afterSelect :: "Response \<Rightarrow> string \<Rightarrow> Writer \<Rightarrow> State \<Rightarrow> selected \<Rightarrow> Outcome" where
  "afterSelect streamResp url b s sel =
     (case sel of
        FromErrChan e \<Rightarrow>
          \<lparr>reply = streamReply (if headerWritten (bwr b) then 200 else 500) streamResp,
           final = emit (CloseBody url)
                     (activeStreams_Dec (streamErrors_Inc (emit (Log ''Stream error'') s))),
           exitPath = StreamError e,
           delivered = Some (bwr b)\<rparr>
      | FromCtxDone \<Rightarrow>
          \<lparr>reply = streamReply 200 streamResp,
           final = emit (CloseBody url)
                     (activeStreams_Dec (emit (Log ''Stream cancelled by client'') s)),
           exitPath = Cancelled,
           delivered = None\<rparr>
      | FromDone \<Rightarrow>
          \<lparr>reply = streamReply 200 streamResp,
           final = emit (CloseBody url)
                     (activeStreams_Dec (emit (Log ''Stream completed'') s)),
           exitPath = Completed,
           delivered = Some (bwr b)\<rparr>)"

definition relay :: "World \<Rightarrow> string \<Rightarrow> Response \<Rightarrow> State \<Rightarrow> Outcome list" where
  "relay world url streamResp s =
     (let s1 = activeStreams_Inc (logICYHeaders streamResp s) in
      case copyTask (clientWriter world) (Body streamResp) of
        (sigs, b) \<Rightarrow>
          (case selectCases sigs (ctxDone world) of
             [] \<Rightarrow> [\<lparr>reply = streamReply 200 streamResp, final = s1,
                     exitPath = NeverReturns, delivered = None\<rparr>]
           | sel # sels \<Rightarrow> map (afterSelect streamResp url b s1) (sel # sels)))"

definition failure :: "nat \<Rightarrow> string \<Rightarrow> exitPath \<Rightarrow> State \<Rightarrow> Outcome" where
  "failure code msg ex s =
     \<lparr>reply = c_JSON code (gin_H_error msg), final = s, exitPath = ex, delivered = None\<rparr>"

definition closeAfter :: "string \<Rightarrow> Outcome \<Rightarrow> Outcome" where
  "closeAfter url out =
     (if exitPath out = NeverReturns then out
      else out\<lparr>final := emit (CloseBody url) (final out)\<rparr>)"

text \<open>
  The router is built with \<^verbatim>\<open>gin.Default()\<close>, which installs the recovery middleware: a
  panic in a handler ends the request with \<^verbatim>\<open>AbortWithStatus(500)\<close>, a status without a
  body. Nothing the handler would have done after the panic happens.
\<close>

definition recovered :: "State \<Rightarrow> Outcome" where
  "recovered s =
     \<lparr>reply = \<lparr>replyStatus = 500, replyHeader = [], replyBody = None\<rparr>,
      final = s, exitPath = Panicked, delivered = None\<rparr>"

text \<open>
  The handler. Its first statement, \<^verbatim>\<open>stationRequests.WithLabelValues(stationName).Inc()\<close>,
  panics when the label value is not valid UTF-8 (the metrics library validates label
  values and \<^verbatim>\<open>WithLabelValues\<close> panics on the error), before the counter is touched. The
  station name is the path parameter as the client sent it, after URL decoding, so it can
  be any byte string.
\<close>

definition streamStationHandler :: "Config \<Rightarrow> World \<Rightarrow> string \<Rightarrow> State \<Rightarrow> Outcome list" where
  "streamStationHandler config world stationName s0 =
     (if \<not> ValidString stationName then [recovered s0] else
      let s1 = emit (HttpGet (APIEndpoint config)) (stationRequests_Inc stationName s0) in
      case http_Get world (APIEndpoint config) of
        Inl e \<Rightarrow> [failure 500 ''Failed to fetch stations'' FetchFailed s1]
      | Inr resp \<Rightarrow>
          map (closeAfter (APIEndpoint config))
            (case resp of
               Inl e \<Rightarrow> [failure 500 ''Failed to parse stations'' ParseFailed s1]
             | Inr stations \<Rightarrow>
                 (case findStation (unicodeFold world) stations stationName of
                    None \<Rightarrow> [failure 404 ''Station not found'' StationNotFound s1]
                  | Some targetStation \<Rightarrow>
                      (case http_NewRequest world ''GET'' (URL targetStation) of
                         Inl e \<Rightarrow>
                           [failure 500 ''Failed to create stream request'' RequestFailed
                              (streamErrors_Inc s1)]
                       | Inr req \<Rightarrow>
                           (let req' = req\<lparr>ReqHeader :=
                                  Header_Set (Header_Set (ReqHeader req) ''Icy-MetaData'' ''1'')
                                    ''User-Agent'' ''ICY/5.0''\<rparr>;
                                s2 = emit (ClientDo (ReqURL req')) s1
                            in case client_Do world req' of
                                 Inl e \<Rightarrow>
                                   [failure 500 ''Failed to connect to stream'' ConnectFailed
                                      (emit (Log ''Stream connection error'')
                                         (streamErrors_Inc s2))]
                               | Inr streamResp \<Rightarrow>
                                   relay world (URL targetStation) streamResp s2)))))"

section \<open>Properties of station resolution\<close>

text \<open>
  Case-insensitive equality in the words of the specification: two names are equal up to
  case when their runes, each replaced by its case-folded form, are the same sequence.
  The case-folded form of an upper-case ASCII letter is the lower-case letter, every other
  ASCII rune is its own, and a rune from U+0080 on has the form that the fold table gives.
  \<^const>\<open>EqualFold\<close>, with its byte loop, its rune loop and its three ways for two runes
  to agree, computes exactly this relation.
\<close>

definition caseKey :: "(nat \<Rightarrow> nat) \<Rightarrow> nat \<Rightarrow> nat" where
  "caseKey caseFold r =
     (if 65 \<le> r \<and> r \<le> 90 then r + 32 else if r < 128 then r else caseFold r)"

definition caseInsensitiveEq :: "(nat \<Rightarrow> nat) \<Rightarrow> string \<Rightarrow> string \<Rightarrow> bool" where
  "caseInsensitiveEq caseFold s t =
     (map (caseKey caseFold) (runes (bytesOf s)) = map (caseKey caseFold) (runes (bytesOf t)))"

lemma runeEq_iff_caseKey: "runeEq caseFold a b \<longleftrightarrow> caseKey caseFold a = caseKey caseFold b"
proof (cases "a = b")
  case True
  then show ?thesis by (simp add: runeEq_def)
next
  case False
  show ?thesis
  proof (cases "max a b < 128")
    case True
    with False show ?thesis
      by (auto simp: runeEq_def caseKey_def Let_def min_def max_def)
  next
    case big: False
    with False show ?thesis
      by (auto simp: runeEq_def caseKey_def Let_def min_def max_def)
  qed
qed

lemma hasUnicode_iff:
  "hasUnicode caseFold rs rt \<longleftrightarrow> map (caseKey caseFold) rs = map (caseKey caseFold) rt"
  by (induction caseFold rs rt rule: hasUnicode.induct) (auto simp: runeEq_iff_caseKey)

lemma runes_ascii: "s0 < 128 \<Longrightarrow> runes (s0 # s) = s0 # runes s"
  by (simp add: DecodeRune_def)

lemma EqualFold_bytes_iff:
  "EqualFold_bytes caseFold s t
     \<longleftrightarrow> map (caseKey caseFold) (runes s) = map (caseKey caseFold) (runes t)"
proof (induction caseFold s t rule: EqualFold_bytes.induct)
  case (1 caseFold)
  show ?case by simp
next
  case (2 caseFold tr t)
  show ?case by (simp split: prod.splits)
next
  case (3 caseFold sr s)
  show ?case by (simp split: prod.splits)
next
  case (4 caseFold sr s tr t)
  show ?case
  proof (cases "128 \<le> sr \<or> 128 \<le> tr")
    case True
    then show ?thesis by (simp only: EqualFold_bytes.simps if_True hasUnicode_iff)
  next
    case False
    then have a: "sr < 128" "tr < 128" by simp_all
    with 4 False show ?thesis
      by (simp add: runes_ascii runeEq_iff_caseKey del: runes.simps)
  qed
qed

lemma EqualFold_iff: "EqualFold caseFold s t \<longleftrightarrow> caseInsensitiveEq caseFold s t"
  by (simp add: EqualFold_def caseInsensitiveEq_def EqualFold_bytes_iff)

text \<open>
  On names that consist of ASCII bytes the tables play no part: the names agree exactly
  when they are equal after every upper-case letter is replaced by its lower-case form.
\<close>

definition toLowerASCII :: "char \<Rightarrow> char" where
  "toLowerASCII c = (if isUpper c then char_of ((of_char c :: nat) + 32) else c)"

lemma caseKey_ascii:
  "(of_char c :: nat) < 128 \<Longrightarrow> caseKey caseFold (of_char c) = of_char (toLowerASCII c)"
  by (simp add: caseKey_def toLowerASCII_def isUpper_def)

lemma runes_ascii_bytes: "list_all (\<lambda>b. b < 128) bs \<Longrightarrow> runes bs = bs"
  by (induction bs) (simp_all add: runes_ascii del: runes.simps(2))

lemma EqualFold_ascii:
  assumes "list_all (\<lambda>c. (of_char c :: nat) < 128) s"
    and "list_all (\<lambda>c. (of_char c :: nat) < 128) t"
  shows "EqualFold caseFold s t \<longleftrightarrow> map toLowerASCII s = map toLowerASCII t"
proof -
  have key: "map (caseKey caseFold) (runes (bytesOf u)) = map of_char (map toLowerASCII u)"
    if "list_all (\<lambda>c. (of_char c :: nat) < 128) u" for u
  proof -
    from that have "list_all (\<lambda>b. b < 128) (bytesOf u)"
      by (simp add: bytesOf_def list_all_iff)
    then have "runes (bytesOf u) = bytesOf u" by (rule runes_ascii_bytes)
    with that show ?thesis
      by (simp add: bytesOf_def list_all_iff caseKey_ascii)
  qed
  have inj: "inj (of_char :: char \<Rightarrow> nat)" by (rule injI) simp
  from key [OF assms(1)] key [OF assms(2)]
  have "caseInsensitiveEq caseFold s t
          \<longleftrightarrow> map (of_char :: char \<Rightarrow> nat) (map toLowerASCII s) = map of_char (map toLowerASCII t)"
    by (simp only: caseInsensitiveEq_def)
  also have "\<dots> \<longleftrightarrow> map toLowerASCII s = map toLowerASCII t"
    by (simp only: inj_map_eq_map [OF inj])
  finally show ?thesis by (simp only: EqualFold_iff)
qed

lemma findStation_None_iff:
  "findStation caseFold stations q = None
     \<longleftrightarrow> (\<forall>s \<in> set stations. \<not> EqualFold caseFold (Name s) q)"
  by (induction stations) auto

lemma findStation_skip:
  "\<forall>p \<in> set pre. \<not> EqualFold caseFold (Name p) q \<Longrightarrow>
     findStation caseFold (pre @ rest) q = findStation caseFold rest q"
  by (induction pre) auto

lemma findStation_Some:
  "findStation caseFold stations q = Some st \<Longrightarrow>
     \<exists>pre post. stations = pre @ st # post \<and> EqualFold caseFold (Name st) q
        \<and> (\<forall>p \<in> set pre. \<not> EqualFold caseFold (Name p) q)"
proof (induction stations)
  case Nil
  then show ?case by simp
next
  case (Cons a stations)
  show ?case
  proof (cases "EqualFold caseFold (Name a) q")
    case True
    with Cons.prems have "a = st" by simp
    with True have "a # stations = [] @ st # stations \<and> EqualFold caseFold (Name st) q
          \<and> (\<forall>p \<in> set []. \<not> EqualFold caseFold (Name p) q)" by simp
    then show ?thesis by blast
  next
    case False
    with Cons.prems have "findStation caseFold stations q = Some st" by simp
    from Cons.IH [OF this] obtain pre post where
      "stations = pre @ st # post" "EqualFold caseFold (Name st) q"
      "\<forall>p \<in> set pre. \<not> EqualFold caseFold (Name p) q"
      by blast
    with False have "a # stations = (a # pre) @ st # post \<and> EqualFold caseFold (Name st) q
          \<and> (\<forall>p \<in> set (a # pre). \<not> EqualFold caseFold (Name p) q)" by simp
    then show ?thesis by blast
  qed
qed

text \<open>
  Claim C4. Resolution compares the requested name with each station's name by
  case-insensitive equality (\<^const>\<open>caseInsensitiveEq\<close>), in list order, and returns the
  first station whose name matches: whenever the list splits into stations whose names
  are not equal to the request up to case, a station whose name is, and any rest, the
  result is that station, whatever the rest holds (a later station with a matching name
  is never considered). Nothing is found exactly when no name is equal to the request up
  to case, and a station that is returned is always the earliest match. This holds for
  every station list, every requested name (any byte string) and every fold table.
\<close>

theorem findStation_first_match:
  "(\<forall>pre st post.
      (\<forall>p \<in> set pre. \<not> caseInsensitiveEq caseFold (Name p) q)
        \<and> caseInsensitiveEq caseFold (Name st) q
        \<longrightarrow> findStation caseFold (pre @ st # post) q = Some st)
   \<and> (findStation caseFold stations q = None
        \<longleftrightarrow> (\<forall>s \<in> set stations. \<not> caseInsensitiveEq caseFold (Name s) q))
   \<and> (\<forall>st. findStation caseFold stations q = Some st \<longrightarrow>
         (\<exists>pre post. stations = pre @ st # post \<and> caseInsensitiveEq caseFold (Name st) q
            \<and> (\<forall>p \<in> set pre. \<not> caseInsensitiveEq caseFold (Name p) q)))"
proof (intro conjI allI impI)
  fix pre post :: "RadioStation list" and st :: RadioStation
  assume "(\<forall>p \<in> set pre. \<not> caseInsensitiveEq caseFold (Name p) q)
            \<and> caseInsensitiveEq caseFold (Name st) q"
  then have "(\<forall>p \<in> set pre. \<not> EqualFold caseFold (Name p) q) \<and> EqualFold caseFold (Name st) q"
    by (simp add: EqualFold_iff)
  then show "findStation caseFold (pre @ st # post) q = Some st"
    by (simp add: findStation_skip)
next
  show "findStation caseFold stations q = None
          \<longleftrightarrow> (\<forall>s \<in> set stations. \<not> caseInsensitiveEq caseFold (Name s) q)"
    by (simp add: findStation_None_iff EqualFold_iff)
next
  fix st :: RadioStation
  assume "findStation caseFold stations q = Some st"
  from findStation_Some [OF this]
  show "\<exists>pre post. stations = pre @ st # post \<and> caseInsensitiveEq caseFold (Name st) q
            \<and> (\<forall>p \<in> set pre. \<not> caseInsensitiveEq caseFold (Name p) q)"
    by (simp add: EqualFold_iff)
qed

text \<open>
  A fold table for the examples: it knows the Kelvin sign and the letter U+00D6 and
  leaves every other rune alone.
\<close>

definition exampleFold :: "nat \<Rightarrow> nat" where
  "exampleFold r = (if r = 8490 then 107 else if r = 214 then 246 else r)"

lemmas utf8_simps = ValidString_def bytesOf_def DecodeRune_def acceptSecond_def
  continuationByte_def invalidRune_def RuneError_def

lemmas fold_simps = EqualFold_def caseInsensitiveEq_def runeEq_def caseKey_def exampleFold_def
  Let_def

text \<open>
  Two stations named \<open>A\<close> both match the request \<open>a\<close> and the one with URL \<open>u1\<close>, which
  comes first, is returned. A station named \<open>KEXP\<close> is found for the request that spells
  the name with the Kelvin sign (the bytes E2 84 AA) in place of the first letter, and is
  not found for the request \<open>KEX\<close>.
\<close>

theorem findStation_first_match_witness:
  "caseInsensitiveEq exampleFold (Name \<lparr>ID = 1, Name = ''A'', URL = ''u1''\<rparr>) ''a''
   \<and> caseInsensitiveEq exampleFold (Name \<lparr>ID = 2, Name = ''A'', URL = ''u2''\<rparr>) ''a''
   \<and> findStation exampleFold
        [\<lparr>ID = 1, Name = ''A'', URL = ''u1''\<rparr>, \<lparr>ID = 2, Name = ''A'', URL = ''u2''\<rparr>] ''a''
       = Some \<lparr>ID = 1, Name = ''A'', URL = ''u1''\<rparr>
   \<and> caseInsensitiveEq exampleFold (Name \<lparr>ID = 3, Name = ''KEXP'', URL = ''u3''\<rparr>)
        [CHR 0xE2, CHR 0x84, CHR 0xAA, CHR ''e'', CHR ''x'', CHR ''p'']
   \<and> findStation exampleFold [\<lparr>ID = 3, Name = ''KEXP'', URL = ''u3''\<rparr>]
        [CHR 0xE2, CHR 0x84, CHR 0xAA, CHR ''e'', CHR ''x'', CHR ''p'']
       = Some \<lparr>ID = 3, Name = ''KEXP'', URL = ''u3''\<rparr>
   \<and> list_all (\<lambda>s. \<not> caseInsensitiveEq exampleFold (Name s) ''KEX'')
        [\<lparr>ID = 3, Name = ''KEXP'', URL = ''u3''\<rparr>]
   \<and> findStation exampleFold [\<lparr>ID = 3, Name = ''KEXP'', URL = ''u3''\<rparr>] ''KEX'' = None"
proof -
  let ?u1 = "\<lparr>ID = 1, Name = ''A'', URL = ''u1''\<rparr>"
  let ?u2 = "\<lparr>ID = 2, Name = ''A'', URL = ''u2''\<rparr>"
  let ?u3 = "\<lparr>ID = 3, Name = ''KEXP'', URL = ''u3''\<rparr>"
  let ?kelvin = "[CHR 0xE2, CHR 0x84, CHR 0xAA, CHR ''e'', CHR ''x'', CHR ''p'']"
  have m: "caseInsensitiveEq exampleFold (Name ?u1) ''a''"
    "caseInsensitiveEq exampleFold (Name ?u2) ''a''"
    by (simp_all add: fold_simps utf8_simps)
  have k: "caseInsensitiveEq exampleFold (Name ?u3) ?kelvin"
    by (simp add: fold_simps utf8_simps)
  have n: "list_all (\<lambda>s. \<not> caseInsensitiveEq exampleFold (Name s) ''KEX'') [?u3]"
    by (simp add: fold_simps utf8_simps)
  have "(\<forall>p \<in> set ([] :: RadioStation list). \<not> caseInsensitiveEq exampleFold (Name p) ''a'')
          \<and> caseInsensitiveEq exampleFold (Name ?u1) ''a''"
    using m by simp
  with findStation_first_match [of exampleFold "''a''" "[]"]
  have a: "findStation exampleFold ([] @ ?u1 # [?u2]) ''a'' = Some ?u1" by blast
  have "(\<forall>p \<in> set ([] :: RadioStation list). \<not> caseInsensitiveEq exampleFold (Name p) ?kelvin)
          \<and> caseInsensitiveEq exampleFold (Name ?u3) ?kelvin"
    using k by simp
  with findStation_first_match [of exampleFold ?kelvin "[]"]
  have b: "findStation exampleFold ([] @ ?u3 # []) ?kelvin = Some ?u3" by blast
  from n have "\<forall>s \<in> set [?u3]. \<not> caseInsensitiveEq exampleFold (Name s) ''KEX''"
    by (simp only: list_all_iff)
  with findStation_first_match [of exampleFold "''KEX''" "[?u3]"]
  have c: "findStation exampleFold [?u3] ''KEX'' = None" by blast
  from m k n a b c show ?thesis by simp
qed

section \<open>Properties of the content type\<close>

text \<open>\<^const>\<open>Contains\<close> is the substring relation.\<close>

lemma HasPrefix_iff: "HasPrefix s p \<longleftrightarrow> (\<exists>v. s = p @ v)"
  by (induction s p rule: HasPrefix.induct) auto

lemma Contains_iff: "Contains s sub \<longleftrightarrow> (\<exists>u v. s = u @ sub @ v)"
proof (induction s)
  case Nil
  then show ?case by auto
next
  case (Cons c cs)
  show ?case
  proof
    assume "Contains (c # cs) sub"
    then consider "HasPrefix (c # cs) sub" | "Contains cs sub" by auto
    then show "\<exists>u v. c # cs = u @ sub @ v"
    proof cases
      case 1
      then obtain v where "c # cs = [] @ sub @ v" by (auto simp: HasPrefix_iff)
      then show ?thesis by blast
    next
      case 2
      with Cons.IH obtain u v where "cs = u @ sub @ v" by blast
      then have "c # cs = (c # u) @ sub @ v" by simp
      then show ?thesis by blast
    qed
  next
    assume "\<exists>u v. c # cs = u @ sub @ v"
    then obtain u v where uv: "c # cs = u @ sub @ v" by blast
    show "Contains (c # cs) sub"
    proof (cases u)
      case Nil
      with uv have "HasPrefix (c # cs) sub" by (auto simp: HasPrefix_iff)
      then show ?thesis by simp
    next
      case (Cons a u')
      with uv have "cs = u' @ sub @ v" by simp
      with Cons.IH have "Contains cs sub" by blast
      then show ?thesis by simp
    qed
  qed
qed

lemma firstContained_None_iff:
  "firstContained cts br = None \<longleftrightarrow> (\<forall>ct \<in> set cts. \<not> Contains br ct)"
  by (induction cts) auto


lemma getContentType_default:
  assumes "Header_Get (Header resp) ''Content-Type'' = []"
    and "\<forall>ct \<in> set contentTypes. \<not> Contains (Header_Get (Header resp) ''icy-br'') ct"
  shows "getContentType resp = ''application/octet-stream''"
proof -
  from assms(2) have "firstContained contentTypes (Header_Get (Header resp) ''icy-br'') = None"
    by (simp add: firstContained_None_iff)
  with assms(1) show ?thesis by (simp add: getContentType_def)
qed

text \<open>
  A bitrate header that is a number contains no \<open>/\<close> and so none of the four MIME
  strings: without an upstream content type the default is sent.
\<close>

lemma Contains_set: "Contains s sub \<Longrightarrow> set sub \<subseteq> set s"
  by (auto simp: Contains_iff)

lemma numeric_bitrate_default:
  assumes "Header_Get (Header resp) ''Content-Type'' = []"
    and "list_all isDigit (Header_Get (Header resp) ''icy-br'')"
  shows "getContentType resp = ''application/octet-stream''"
proof -
  let ?br = "Header_Get (Header resp) ''icy-br''"
  have "\<not> Contains ?br ct" if "ct \<in> set contentTypes" for ct
  proof
    assume "Contains ?br ct"
    then have "set ct \<subseteq> set ?br" by (rule Contains_set)
    moreover from that have "CHR ''/'' \<in> set ct" by (auto simp: contentTypes_def)
    ultimately have "CHR ''/'' \<in> set ?br" by blast
    with assms(2) have "isDigit CHR ''/''" by (simp add: list_all_iff)
    then show False by (simp add: isDigit_def)
  qed
  with assms(1) show ?thesis by (simp add: getContentType_default)
qed




section \<open>Properties of the copy\<close>

text \<open>
  The bytes of an upstream body: the blocks of its read events up to and including the
  first event that reports an error or the end of the body.
\<close>

fun upstreamBytes :: "reader \<Rightarrow> bytes" where
  "upstreamBytes [] = []"
| "upstreamBytes ((d, e) # r) = d @ (case e of None \<Rightarrow> upstreamBytes r | Some x \<Rightarrow> [])"

text \<open>
  A body that arrives in non-empty blocks, however they are cut, and then ends with
  \<^verbatim>\<open>io.EOF\<close> (alone or along with a last block).
\<close>

fun wellChunked :: "reader \<Rightarrow> bool" where
  "wellChunked [] = False"
| "wellChunked ((d, e) # r) = (case e of None \<Rightarrow> d \<noteq> [] \<and> wellChunked r | Some x \<Rightarrow> x = EOF)"

lemma Read_upstreamBytes:
  "Read r n = Data d e r' \<Longrightarrow>
     upstreamBytes r = d @ (case e of None \<Rightarrow> upstreamBytes r' | Some x \<Rightarrow> [])"
  by (cases r) (auto split: if_splits)

lemma readLoop_upstreamBytes:
  "readLoop r n nr = Got d e r' \<Longrightarrow>
     upstreamBytes r = d @ (case e of None \<Rightarrow> upstreamBytes r' | Some x \<Rightarrow> [])"
proof (induction r n nr rule: readLoop.induct)
  case (1 r n nr)
  show ?case
  proof (cases "Read r n")
    case Blocks
    with "1.prems" show ?thesis by (simp add: readLoop.simps split: if_splits)
  next
    case (Data d0 e0 r0)
    note U = Read_upstreamBytes [OF Data]
    show ?thesis
    proof (cases "d0 \<noteq> [] \<or> e0 \<noteq> None")
      case True
      with "1.prems" Data have "d0 = d" "e0 = e" "r0 = r'"
        by (simp_all add: readLoop.simps split: if_splits)
      with U show ?thesis by (simp split: option.splits)
    next
      case False
      with "1.prems" Data have lt: "nr < maxConsecutiveEmptyReads"
        and rec: "readLoop r0 n (Suc nr) = Got d e r'"
        by (simp_all add: readLoop.simps split: if_splits)
      from "1.IH" [OF lt Data _ rec] False
      have "upstreamBytes r0 = d @ (case e of None \<Rightarrow> upstreamBytes r' | Some x \<Rightarrow> [])" by simp
      with U False show ?thesis by simp
    qed
  qed
qed

lemma Write_ok:
  "Write w p = (n, None, w') \<Longrightarrow> n = length p \<and> received w' = received w @ p"
  by (auto simp: Write_def split: option.splits if_splits)

lemma Flush_ok:
  assumes "Flush b = (None, b')"
  shows "berr b' = None \<and> bbuf b' = [] \<and> bsize b' = bsize b
         \<and> received (bwr b') = received (bwr b) @ bbuf b"
proof (cases "berr b")
  case (Some e)
  with assms show ?thesis by (simp add: Flush_def)
next
  case None
  show ?thesis
  proof (cases "bbuf b = []")
    case True
    with None assms show ?thesis by (simp add: Flush_def)
  next
    case False
    obtain n e w' where W: "Write (bwr b) (bbuf b) = (n, e, w')" by (cases "Write (bwr b) (bbuf b)")
    show ?thesis
    proof (cases e)
      case (Some x)
      with None False W assms show ?thesis by (simp add: Flush_def)
    next
      case eN: None
      with W have "n = length (bbuf b) \<and> received w' = received (bwr b) @ bbuf b"
        by (simp add: Write_ok)
      with None False W eN assms show ?thesis by (auto simp: Flush_def)
    qed
  qed
qed

lemma Flush_err:
  "Flush b = (Some x, b') \<Longrightarrow> berr b' = Some x"
  by (auto simp: Flush_def split: option.splits if_splits prod.splits)

lemma ReadFrom_loop_bytes:
  "ReadFrom_loop b r = (Returns None, b') \<Longrightarrow> berr b = None \<Longrightarrow>
     berr b' = None \<and> received (bwr b') @ bbuf b' = received (bwr b) @ bbuf b @ upstreamBytes r"
proof (induction b r arbitrary: b' rule: ReadFrom_loop.induct)
  case (1 b r)
  obtain e1 b1 where F: "(if Available b = 0 then Flush b else (None, b)) = (e1, b1)"
    by (cases "if Available b = 0 then Flush b else (None, b)")
  show ?case
  proof (cases e1)
    case (Some x)
    with F "1.prems" show ?thesis by (simp add: ReadFrom_loop.simps [of b r])
  next
    case None
    have b1: "berr b1 = None \<and> received (bwr b1) @ bbuf b1 = received (bwr b) @ bbuf b"
    proof (cases "Available b = 0")
      case True
      with F None have "Flush b = (None, b1)" by simp
      from Flush_ok [OF this] show ?thesis by simp
    next
      case False
      with F "1.prems" show ?thesis by simp
    qed
    show ?thesis
    proof (cases "readLoop r (Available b1) 0")
      case NoProgress
      with F None "1.prems" show ?thesis by (simp add: ReadFrom_loop.simps [of b r])
    next
      case Never
      with F None "1.prems" show ?thesis by (simp add: ReadFrom_loop.simps [of b r])
    next
      case (Got d e r')
      note U = readLoop_upstreamBytes [OF Got]
      let ?b2 = "b1\<lparr>bbuf := bbuf b1 @ d\<rparr>"
      show ?thesis
      proof (cases e)
        case eN: None
        with F None Got "1.prems" have rec: "ReadFrom_loop ?b2 r' = (Returns None, b')"
          by (simp add: ReadFrom_loop.simps [of b r])
        have "berr ?b2 = None" using b1 by simp
        from "1.IH" [OF F [symmetric] None Got eN rec this]
        have "berr b' = None \<and> received (bwr b') @ bbuf b' = received (bwr ?b2) @ bbuf ?b2 @ upstreamBytes r'" .
        with b1 U eN show ?thesis by simp
      next
        case (Some x)
        show ?thesis
        proof (cases "x = EOF")
          case False
          with F None Got Some "1.prems" show ?thesis by (simp add: ReadFrom_loop.simps [of b r])
        next
          case True
          show ?thesis
          proof (cases "Available ?b2 = 0")
            case False
            with F None Got Some True "1.prems" have "b' = ?b2"
              by (simp add: ReadFrom_loop.simps [of b r])
            with b1 U Some show ?thesis by simp
          next
            case A0: True
            obtain e3 b3 where F3: "Flush ?b2 = (e3, b3)" by (cases "Flush ?b2")
            with F None Got Some True A0 "1.prems" have "e3 = None \<and> b' = b3"
              by (simp add: ReadFrom_loop.simps [of b r])
            with F3 have "Flush ?b2 = (None, b')" by simp
            from Flush_ok [OF this] b1 U Some show ?thesis by simp
          qed
        qed
      qed
    qed
  qed
qed

text \<open>
  When the goroutine closes \<^verbatim>\<open>done\<close> without sending an error and the buffered writer
  has recorded no write failure (the final flush went through), the client has received
  exactly the bytes of the upstream body, in order, after what it had received before,
  and nothing is left in the buffer. The body is any list of read events, so this holds
  for every length and for every way the transport cuts the body into reads. The second
  condition is not something the handler can see: the goroutine drops the result of the
  final flush.
\<close>

lemma copyTask_bytes_when_flushed:
  assumes "copyTask cw src = (sigs, b)"
    and "sigs = [CloseDone]"
    and "berr b = None"
  shows "received (bwr b) = received cw @ upstreamBytes src \<and> bbuf b = []"
proof -
  let ?w = "NewWriterSize cw (32 * 1024)"
  have w: "berr ?w = None \<and> bbuf ?w = [] \<and> bwr ?w = cw" by (simp add: NewWriterSize_def)
  obtain c b1 where C: "io_Copy ?w src = (c, b1)" by (cases "io_Copy ?w src")
  show ?thesis
  proof (cases c)
    case Hangs
    with C assms show ?thesis by (simp add: copyTask_def)
  next
    case (Returns e)
    show ?thesis
    proof (cases e)
      case (Some x)
      with C Returns assms show ?thesis by (simp add: copyTask_def)
    next
      case None
      with C Returns w have "ReadFrom_loop ?w src = (Returns None, b1)"
        by (simp add: io_Copy_def)
      from ReadFrom_loop_bytes [OF this] w
      have b1: "berr b1 = None \<and> received (bwr b1) @ bbuf b1 = received cw @ upstreamBytes src"
        by simp
      obtain e' b' where F: "Flush b1 = (e', b')" by (cases "Flush b1")
      with C Returns None assms have bb: "b = b'" by (simp add: copyTask_def)
      have "e' = None"
      proof (cases e')
        case (Some x)
        with F have "berr b' = Some x" by (simp add: Flush_err)
        with bb assms(3) show ?thesis by simp
      qed simp
      with F bb have "Flush b1 = (None, b)" by simp
      from Flush_ok [OF this] b1 show ?thesis by simp
    qed
  qed
qed


lemmas run_simps = copyTask_def io_Copy_def NewWriterSize_def ReadFrom_loop.simps
  readLoop.simps Available_def Flush_def Write_def maxConsecutiveEmptyReads_def

text \<open>
  On a client connection that does not fail, every body that arrives in non-empty blocks
  and ends is copied to completion, byte for byte.
\<close>

lemma Flush_room_None:
  assumes "berr b = None" and "room (bwr b) = None"
  shows "\<exists>b'. Flush b = (None, b') \<and> room (bwr b') = None \<and> bsize b' = bsize b
            \<and> berr b' = None \<and> bbuf b' = []"
proof (cases "bbuf b = []")
  case True
  with assms show ?thesis by (simp add: Flush_def)
next
  case False
  with assms show ?thesis by (simp add: Flush_def Write_def)
qed

lemma Read_wellChunked:
  assumes "wellChunked r" and "0 < n"
  shows "\<exists>d e r'. Read r n = Data d e r'
           \<and> ((e = None \<and> d \<noteq> [] \<and> wellChunked r') \<or> e = Some EOF)"
proof (cases r)
  case Nil
  with assms show ?thesis by simp
next
  case (Cons p r0)
  obtain d e where p: "p = (d, e)" by (cases p)
  show ?thesis
  proof (cases "length d \<le> n")
    case True
    with Cons p assms show ?thesis by (cases e) auto
  next
    case False
    with assms(2) have "take n d \<noteq> []" "drop n d \<noteq> []" by auto
    with False Cons p assms show ?thesis by (cases e) auto
  qed
qed

lemma readLoop_wellChunked:
  assumes "wellChunked r" and "0 < n"
  shows "\<exists>d e r'. readLoop r n 0 = Got d e r'
           \<and> ((e = None \<and> wellChunked r') \<or> e = Some EOF)"
proof -
  from Read_wellChunked [OF assms] obtain d e r' where
    R: "Read r n = Data d e r'" and C: "(e = None \<and> d \<noteq> [] \<and> wellChunked r') \<or> e = Some EOF"
    by blast
  from C have "d \<noteq> [] \<or> e \<noteq> None" by auto
  with R have "readLoop r n 0 = Got d e r'"
    by (simp add: readLoop.simps [of r n 0] maxConsecutiveEmptyReads_def)
  with C show ?thesis by blast
qed

lemma ReadFrom_loop_total:
  "wellChunked r \<Longrightarrow> berr b = None \<Longrightarrow> room (bwr b) = None \<Longrightarrow> 0 < bsize b \<Longrightarrow>
     \<exists>b'. ReadFrom_loop b r = (Returns None, b') \<and> room (bwr b') = None"
proof (induction b r rule: ReadFrom_loop.induct)
  case (1 b r)
  have "\<exists>b1. (if Available b = 0 then Flush b else (None, b)) = (None, b1)
          \<and> berr b1 = None \<and> room (bwr b1) = None \<and> bsize b1 = bsize b \<and> 0 < Available b1"
  proof (cases "Available b = 0")
    case True
    from Flush_room_None [OF "1.prems"(2,3)] obtain b1 where
      "Flush b = (None, b1)" "room (bwr b1) = None" "bsize b1 = bsize b" "berr b1 = None" "bbuf b1 = []"
      by blast
    with True "1.prems"(4) show ?thesis by (simp add: Available_def)
  next
    case False
    with "1.prems" show ?thesis by simp
  qed
  then obtain b1 where F: "(if Available b = 0 then Flush b else (None, b)) = (None, b1)"
    and b1: "berr b1 = None" "room (bwr b1) = None" "bsize b1 = bsize b" "0 < Available b1"
    by blast
  from readLoop_wellChunked [OF "1.prems"(1) b1(4)] obtain d e r' where
    G: "readLoop r (Available b1) 0 = Got d e r'" and C: "(e = None \<and> wellChunked r') \<or> e = Some EOF"
    by blast
  let ?b2 = "b1\<lparr>bbuf := bbuf b1 @ d\<rparr>"
  show ?case
  proof (cases e)
    case None
    with C have wc: "wellChunked r'" by simp
    from b1 "1.prems"(4) have "berr ?b2 = None" "room (bwr ?b2) = None" "0 < bsize ?b2" by simp_all
    from "1.IH" [OF F [symmetric] refl G None wc this] obtain b' where
      "ReadFrom_loop ?b2 r' = (Returns None, b')" "room (bwr b') = None" by blast
    with F G None show ?thesis by (simp add: ReadFrom_loop.simps [of b r])
  next
    case (Some x)
    with C have x: "x = EOF" by simp
    show ?thesis
    proof (cases "Available ?b2 = 0")
      case False
      with F G Some x b1 show ?thesis by (simp add: ReadFrom_loop.simps [of b r])
    next
      case True
      from b1 have "berr ?b2 = None" "room (bwr ?b2) = None" by simp_all
      from Flush_room_None [OF this] obtain b3 where
        "Flush ?b2 = (None, b3)" "room (bwr b3) = None" by blast
      with F G Some x True show ?thesis by (simp add: ReadFrom_loop.simps [of b r])
    qed
  qed
qed

lemma copyTask_completes:
  assumes "wellChunked src" and "room cw = None"
  shows "\<exists>b. copyTask cw src = ([CloseDone], b) \<and> berr b = None
            \<and> received (bwr b) = received cw @ upstreamBytes src"
proof -
  let ?w = "NewWriterSize cw (32 * 1024)"
  have w: "berr ?w = None" "room (bwr ?w) = None" "0 < bsize ?w" "bbuf ?w = []" "bwr ?w = cw"
    using assms(2) by (simp_all add: NewWriterSize_def)
  from ReadFrom_loop_total [OF assms(1) w(1,2,3)] obtain b1 where
    R: "ReadFrom_loop ?w src = (Returns None, b1)" and r1: "room (bwr b1) = None" by blast
  from ReadFrom_loop_bytes [OF R w(1)] w
  have b1: "berr b1 = None" "received (bwr b1) @ bbuf b1 = received cw @ upstreamBytes src"
    by simp_all
  from Flush_room_None [OF b1(1) r1] obtain b where F: "Flush b1 = (None, b)" and "berr b = None"
    by blast
  moreover from R w(1) have "io_Copy ?w src = (Returns None, b1)" by (simp add: io_Copy_def)
  with F have "copyTask cw src = ([CloseDone], b)" by (simp add: copyTask_def)
  moreover from Flush_ok [OF F] b1(2) have "received (bwr b) = received cw @ upstreamBytes src"
    by simp
  ultimately show ?thesis by blast
qed


text \<open>
  With a two-byte buffer the intermediate flushes show: eight of nine bytes have gone out
  when the loop returns and the ninth waits in the buffer for the final flush.
\<close>

lemma ReadFrom_loop_small_buffer:
  "ReadFrom_loop (NewWriterSize \<lparr>received = [], headerWritten = False, room = None\<rparr> 2)
       [([1, 2, 3], None), ([4], None), ([], None), ([5, 6, 7, 8, 9], Some EOF)]
     = (Returns None,
        \<lparr>berr = None, bbuf = [9], bsize = 2,
         bwr = \<lparr>received = [1, 2, 3, 4, 5, 6, 7, 8], headerWritten = True, room = None\<rparr>\<rparr>)"
  by (simp add: run_simps)

text \<open>
  The result of the final flush is dropped by the goroutine: when that write fails, the
  goroutine still only closes \<^verbatim>\<open>done\<close>, and the failure shows in the writer's error.
\<close>

lemma copyTask_flush_error_dropped:
  "copyTask \<lparr>received = [], headerWritten = False, room = Some 0\<rparr> [([1, 2, 3], Some EOF)]
     = ([CloseDone],
        \<lparr>berr = Some (ErrorString ''write: broken pipe''), bbuf = [1, 2, 3], bsize = 32768,
         bwr = \<lparr>received = [], headerWritten = True, room = Some 0\<rparr>\<rparr>)"
  by (simp add: run_simps)

section \<open>Properties of the copy goroutine's signals\<close>

text \<open>
  \<^verbatim>\<open>close(done)\<close> is deferred, so the completion signal is raised on every run in which
  the copy returns, with or without an error. The error signal is raised exactly when the
  copy returned an error, carries that error and comes before the close. The buffer is
  flushed only after a copy without error. A copy that never returns raises neither
  signal.
\<close>

lemma copyTask_signals:
  "(CloseDone \<in> set (fst (copyTask cw src))
      \<longleftrightarrow> fst (io_Copy (NewWriterSize cw (32 * 1024)) src) \<noteq> Hangs)
   \<and> (\<forall>e. SendErr e \<in> set (fst (copyTask cw src))
          \<longleftrightarrow> fst (io_Copy (NewWriterSize cw (32 * 1024)) src) = Returns (Some e))
   \<and> (\<forall>e. fst (io_Copy (NewWriterSize cw (32 * 1024)) src) = Returns (Some e) \<longrightarrow>
          copyTask cw src = ([SendErr e, CloseDone], snd (io_Copy (NewWriterSize cw (32 * 1024)) src)))
   \<and> (fst (io_Copy (NewWriterSize cw (32 * 1024)) src) = Returns None \<longrightarrow>
          copyTask cw src
            = ([CloseDone], snd (Flush (snd (io_Copy (NewWriterSize cw (32 * 1024)) src)))))
   \<and> (fst (io_Copy (NewWriterSize cw (32 * 1024)) src) = Hangs \<longrightarrow>
          copyTask cw src = ([], snd (io_Copy (NewWriterSize cw (32 * 1024)) src)))"
proof -
  obtain c b where C: "io_Copy (NewWriterSize cw (32 * 1024)) src = (c, b)"
    by (cases "io_Copy (NewWriterSize cw (32 * 1024)) src")
  show ?thesis
  proof (cases c)
    case Hangs
    with C show ?thesis by (simp add: copyTask_def)
  next
    case (Returns e)
    show ?thesis
    proof (cases e)
      case None
      obtain e' b' where "Flush b = (e', b')" by (cases "Flush b")
      with C Returns None show ?thesis by (simp add: copyTask_def)
    next
      case (Some x)
      with C Returns show ?thesis by (auto simp: copyTask_def)
    qed
  qed
qed

section \<open>Properties of the handlers\<close>

text \<open>
  What a run added to the trace, the gauge events among them, and the lines that
  \<^const>\<open>logICYHeaders\<close> writes.
\<close>

definition newEvents :: "State \<Rightarrow> Outcome \<Rightarrow> event list" where
  "newEvents s0 out = drop (length (trace s0)) (trace (final out))"

definition isGauge :: "event \<Rightarrow> bool" where
  "isGauge ev = (ev = ActiveStreamsInc \<or> ev = ActiveStreamsDec)"

definition gaugeEvents :: "event list \<Rightarrow> event list" where
  "gaugeEvents evs = filter isGauge evs"

fun isStationRequestsInc :: "event \<Rightarrow> bool" where
  "isStationRequestsInc (StationRequestsInc l) = True"
| "isStationRequestsInc ev = False"

fun icyLines :: "Response \<Rightarrow> string list \<Rightarrow> string list" where
  "icyLines resp [] = []"
| "icyLines resp (header # headers) =
     (if Header_Get (Header resp) header \<noteq> []
      then (header @ '': '' @ Header_Get (Header resp) header) # icyLines resp headers
      else icyLines resp headers)"

text \<open>
  The effect of each state operation on the trace and on the collectors.
\<close>

lemma trace_emit [simp]: "trace (emit ev s) = trace s @ [ev]"
  and metrics_emit [simp]: "metrics (emit ev s) = metrics s"
  by (simp_all add: emit_def)

lemma trace_stationRequests_Inc [simp]:
  "trace (stationRequests_Inc l s) = trace s @ [StationRequestsInc l]"
  and metrics_stationRequests_Inc [simp]:
  "metrics (stationRequests_Inc l s)
     = (metrics s)\<lparr>stationRequests := (stationRequests (metrics s))(l := Suc (stationRequests (metrics s) l))\<rparr>"
  by (simp_all add: stationRequests_Inc_def)

lemma trace_streamErrors_Inc [simp]:
  "trace (streamErrors_Inc s) = trace s @ [StreamErrorsInc]"
  and metrics_streamErrors_Inc [simp]:
  "metrics (streamErrors_Inc s) = (metrics s)\<lparr>streamErrors := Suc (streamErrors (metrics s))\<rparr>"
  by (simp_all add: streamErrors_Inc_def)

lemma trace_activeStreams_Inc [simp]:
  "trace (activeStreams_Inc s) = trace s @ [ActiveStreamsInc]"
  and metrics_activeStreams_Inc [simp]:
  "metrics (activeStreams_Inc s) = (metrics s)\<lparr>activeStreams := activeStreams (metrics s) + 1\<rparr>"
  by (simp_all add: activeStreams_Inc_def)

lemma trace_activeStreams_Dec [simp]:
  "trace (activeStreams_Dec s) = trace s @ [ActiveStreamsDec]"
  and metrics_activeStreams_Dec [simp]:
  "metrics (activeStreams_Dec s) = (metrics s)\<lparr>activeStreams := activeStreams (metrics s) - 1\<rparr>"
  by (simp_all add: activeStreams_Dec_def)

lemma logHeaderLoop_effect:
  "trace (logHeaderLoop resp hs s) = trace s @ map Log (icyLines resp hs)
   \<and> metrics (logHeaderLoop resp hs s) = metrics s"
  by (induction hs arbitrary: s) simp_all

lemma trace_logICYHeaders [simp]:
  "trace (logICYHeaders resp s) = trace s @ Log ''Stream Headers:'' # map Log (icyLines resp icyHeaders)"
  and metrics_logICYHeaders [simp]: "metrics (logICYHeaders resp s) = metrics s"
  by (simp_all add: logICYHeaders_def logHeaderLoop_effect)

lemma gaugeEvents_Log [simp]: "filter isGauge (map Log ls) = []"
  by (induction ls) (simp_all add: isGauge_def)

lemma StationRequestsInc_Log [simp]: "filter isStationRequestsInc (map Log ls) = []"
  by (induction ls) simp_all

text \<open>
  Every case the \<^verbatim>\<open>select\<close> can take is backed by a signal of the goroutine or by the
  cancelled context.
\<close>

lemma selectCases_elem:
  assumes "sel \<in> set (selectCases sigs gone)"
  shows "(\<exists>e. sel = FromErrChan e \<and> SendErr e \<in> set sigs)
         \<or> (sel = FromCtxDone \<and> gone) \<or> (sel = FromDone \<and> CloseDone \<in> set sigs)"
proof -
  have "sel \<in> set (errCases sgs) \<Longrightarrow> \<exists>e. sel = FromErrChan e \<and> SendErr e \<in> set sgs" for sgs
    by (induction sgs rule: errCases.induct) auto
  with assms show ?thesis
    by (auto simp: selectCases_def split: if_splits)
qed

text \<open>
  The runs of the handler, one case per \<^verbatim>\<open>return\<close> of the source and one for the
  \<^verbatim>\<open>select\<close>.
\<close>

lemma relay_outcome:
  assumes "out \<in> set (relay world url resp s)"
  obtains
    (waits) "out = \<lparr>reply = streamReply 200 resp, final = activeStreams_Inc (logICYHeaders resp s),
                    exitPath = NeverReturns, delivered = None\<rparr>"
  | (selected) sel where
      "sel \<in> set (selectCases (fst (copyTask (clientWriter world) (Body resp))) (ctxDone world))"
      "out = afterSelect resp url (snd (copyTask (clientWriter world) (Body resp)))
               (activeStreams_Inc (logICYHeaders resp s)) sel"
proof -
  obtain sigs b where C: "copyTask (clientWriter world) (Body resp) = (sigs, b)"
    by (cases "copyTask (clientWriter world) (Body resp)")
  show thesis
  proof (cases "selectCases sigs (ctxDone world)")
    case Nil
    with assms C have "out = \<lparr>reply = streamReply 200 resp, final = activeStreams_Inc (logICYHeaders resp s),
                    exitPath = NeverReturns, delivered = None\<rparr>"
      by (simp add: relay_def Let_def)
    then show thesis by (rule waits)
  next
    case (Cons sel sels)
    with assms C obtain x where "x \<in> set (selectCases sigs (ctxDone world))"
      "out = afterSelect resp url b (activeStreams_Inc (logICYHeaders resp s)) x"
      by (auto simp: relay_def Let_def)
    with C show thesis by (intro selected [of x]) simp_all
  qed
qed

lemma streamStationHandler_outcome:
  fixes s1 :: State
  assumes "out \<in> set (streamStationHandler config world stationName s0)"
  defines "s1 \<equiv> emit (HttpGet (APIEndpoint config)) (stationRequests_Inc stationName s0)"
  obtains
    (panic) "\<not> ValidString stationName" "out = recovered s0"
  | (fetch) e where "http_Get world (APIEndpoint config) = Inl e"
      "out = failure 500 ''Failed to fetch stations'' FetchFailed s1"
      "ValidString stationName"
  | (parse) e where "http_Get world (APIEndpoint config) = Inr (Inl e)"
      "out = closeAfter (APIEndpoint config) (failure 500 ''Failed to parse stations'' ParseFailed s1)"
      "ValidString stationName"
  | (notfound) stations where "http_Get world (APIEndpoint config) = Inr (Inr stations)"
      "findStation (unicodeFold world) stations stationName = None"
      "out = closeAfter (APIEndpoint config) (failure 404 ''Station not found'' StationNotFound s1)"
      "ValidString stationName"
  | (create) stations targetStation e where
      "http_Get world (APIEndpoint config) = Inr (Inr stations)"
      "findStation (unicodeFold world) stations stationName = Some targetStation"
      "http_NewRequest world ''GET'' (URL targetStation) = Inl e"
      "out = closeAfter (APIEndpoint config)
               (failure 500 ''Failed to create stream request'' RequestFailed (streamErrors_Inc s1))"
      "ValidString stationName"
  | (connect) stations targetStation req e where
      "http_Get world (APIEndpoint config) = Inr (Inr stations)"
      "findStation (unicodeFold world) stations stationName = Some targetStation"
      "http_NewRequest world ''GET'' (URL targetStation) = Inr req"
      "client_Do world (req\<lparr>ReqHeader :=
          Header_Set (Header_Set (ReqHeader req) ''Icy-MetaData'' ''1'') ''User-Agent'' ''ICY/5.0''\<rparr>) = Inl e"
      "out = closeAfter (APIEndpoint config)
               (failure 500 ''Failed to connect to stream'' ConnectFailed
                  (emit (Log ''Stream connection error'')
                     (streamErrors_Inc (emit (ClientDo (ReqURL req)) s1))))"
      "ValidString stationName"
  | (stream) stations targetStation req streamResp out' where
      "http_Get world (APIEndpoint config) = Inr (Inr stations)"
      "findStation (unicodeFold world) stations stationName = Some targetStation"
      "http_NewRequest world ''GET'' (URL targetStation) = Inr req"
      "client_Do world (req\<lparr>ReqHeader :=
          Header_Set (Header_Set (ReqHeader req) ''Icy-MetaData'' ''1'') ''User-Agent'' ''ICY/5.0''\<rparr>)
         = Inr streamResp"
      "out' \<in> set (relay world (URL targetStation) streamResp (emit (ClientDo (ReqURL req)) s1))"
      "out = closeAfter (APIEndpoint config) out'"
      "ValidString stationName"
proof (cases "ValidString stationName")
  case False
  with assms(1) have "out = recovered s0" by (simp add: streamStationHandler_def)
  with False show thesis by (rule panic)
next
  case V: True
  show thesis
  proof (cases "http_Get world (APIEndpoint config)")
    case (Inl e)
    with assms(1) V have "out = failure 500 ''Failed to fetch stations'' FetchFailed s1"
      by (simp add: streamStationHandler_def s1_def)
    with Inl show thesis using V by (rule fetch)
  next
    case (Inr resp)
    show thesis
    proof (cases resp)
      case (Inl e)
      with Inr assms(1) V have "out = closeAfter (APIEndpoint config)
          (failure 500 ''Failed to parse stations'' ParseFailed s1)"
        by (simp add: streamStationHandler_def s1_def)
      with Inr Inl V show thesis by (intro parse [of e]) simp_all
    next
      case stations: (Inr stations)
      with Inr have G: "http_Get world (APIEndpoint config) = Inr (Inr stations)" by simp
      show thesis
      proof (cases "findStation (unicodeFold world) stations stationName")
        case None
        with G assms(1) V have "out = closeAfter (APIEndpoint config)
            (failure 404 ''Station not found'' StationNotFound s1)"
          by (simp add: streamStationHandler_def s1_def)
        with G None show thesis using V by (rule notfound)
      next
        case (Some targetStation)
        show thesis
        proof (cases "http_NewRequest world ''GET'' (URL targetStation)")
          case (Inl e)
          with G Some assms(1) V have "out = closeAfter (APIEndpoint config)
              (failure 500 ''Failed to create stream request'' RequestFailed (streamErrors_Inc s1))"
            by (simp add: streamStationHandler_def s1_def)
          with G Some Inl show thesis using V by (rule create)
        next
          case req: (Inr req)
          let ?req = "req\<lparr>ReqHeader :=
            Header_Set (Header_Set (ReqHeader req) ''Icy-MetaData'' ''1'') ''User-Agent'' ''ICY/5.0''\<rparr>"
          show thesis
          proof (cases "client_Do world ?req")
            case (Inl e)
            with G Some req assms(1) V have "out = closeAfter (APIEndpoint config)
                 (failure 500 ''Failed to connect to stream'' ConnectFailed
                    (emit (Log ''Stream connection error'')
                       (streamErrors_Inc (emit (ClientDo (ReqURL req)) s1))))"
              by (simp add: streamStationHandler_def s1_def Let_def)
            with G Some req Inl show thesis using V by (rule connect)
          next
            case resp: (Inr streamResp)
            with G Some req assms(1) V obtain out' where
              "out' \<in> set (relay world (URL targetStation) streamResp (emit (ClientDo (ReqURL req)) s1))"
              "out = closeAfter (APIEndpoint config) out'"
              by (auto simp: streamStationHandler_def s1_def Let_def)
            with G Some req resp show thesis using V by (rule stream)
          qed
        qed
      qed
    qed
  qed
qed

lemma afterSelect_effect [simp]:
  "trace (final (afterSelect resp url b s sel)) = trace s @
     (case sel of
        FromErrChan e \<Rightarrow> [Log ''Stream error'', StreamErrorsInc, ActiveStreamsDec, CloseBody url]
      | FromCtxDone \<Rightarrow> [Log ''Stream cancelled by client'', ActiveStreamsDec, CloseBody url]
      | FromDone \<Rightarrow> [Log ''Stream completed'', ActiveStreamsDec, CloseBody url])"
  "activeStreams (metrics (final (afterSelect resp url b s sel))) = activeStreams (metrics s) - 1"
  "streamErrors (metrics (final (afterSelect resp url b s sel))) =
     (case sel of FromErrChan e \<Rightarrow> Suc (streamErrors (metrics s))
      | FromCtxDone \<Rightarrow> streamErrors (metrics s) | FromDone \<Rightarrow> streamErrors (metrics s))"
  "stationRequests (metrics (final (afterSelect resp url b s sel))) = stationRequests (metrics s)"
  "exitPath (afterSelect resp url b s sel) =
     (case sel of FromErrChan e \<Rightarrow> StreamError e | FromCtxDone \<Rightarrow> Cancelled | FromDone \<Rightarrow> Completed)"
  by (cases sel; simp add: afterSelect_def)+

lemma closeAfter_effect [simp]:
  "trace (final (closeAfter url out)) =
     (if exitPath out = NeverReturns then trace (final out) else trace (final out) @ [CloseBody url])"
  "metrics (final (closeAfter url out)) = metrics (final out)"
  "exitPath (closeAfter url out) = exitPath out"
  "reply (closeAfter url out) = reply out"
  by (simp_all add: closeAfter_def)

lemma failure_effect [simp]:
  "final (failure code msg ex s) = s"
  "exitPath (failure code msg ex s) = ex"
  "reply (failure code msg ex s) = c_JSON code (gin_H_error msg)"
  by (simp_all add: failure_def)

lemma recovered_effect [simp]:
  "final (recovered s) = s"
  "exitPath (recovered s) = Panicked"
  "reply (recovered s) = \<lparr>replyStatus = 500, replyHeader = [], replyBody = None\<rparr>"
  by (simp_all add: recovered_def)

lemma exitPath_afterSelect_returns [simp]:
  "exitPath (afterSelect resp url b s sel) \<noteq> NeverReturns"
  by (cases sel) simp_all

text \<open>
  A concrete gateway for the examples: a directory of two stations, one of them with a
  URL that \<^verbatim>\<open>http.NewRequest\<close> rejects (it has no protocol scheme), an upstream that
  either refuses the connection or serves the given body without headers, and a client
  connection that does not fail.
\<close>

definition exampleConfig :: Config where
  "exampleConfig = \<lparr>APIEndpoint = ''http://directory.example/stations'', Port = ''8080'',
                     SSLCert = [], SSLKey = [], EnableHTTPS = False\<rparr>"

definition exampleState :: State where
  "exampleState = \<lparr>metrics = \<lparr>stationRequests = (\<lambda>l. 0), streamErrors = 0, activeStreams = 0\<rparr>,
                    trace = []\<rparr>"

definition exampleDirectory :: "RadioStation list" where
  "exampleDirectory = [\<lparr>ID = 1, Name = ''KEXP'', URL = ''http://kexp.example/live''\<rparr>,
                       \<lparr>ID = 2, Name = ''Broken'', URL = ''://broken''\<rparr>]"

definition exampleWorld :: "RadioStation list \<Rightarrow> err + reader \<Rightarrow> bool \<Rightarrow> World" where
  "exampleWorld directory upstream gone =
     \<lparr>unicodeFold = exampleFold,
      http_Get = (\<lambda>url. Inr (Inr directory)),
      http_NewRequest = (\<lambda>method url.
         if url = ''://broken'' then Inl (ErrorString ''missing protocol scheme'')
         else Inr \<lparr>Method = method, ReqURL = url, ReqHeader = Map.empty\<rparr>),
      client_Do = (\<lambda>req. case upstream of
                             Inl e \<Rightarrow> Inl e
                           | Inr src \<Rightarrow> Inr \<lparr>Header = Map.empty, Body = src\<rparr>),
      clientWriter = \<lparr>received = [], headerWritten = False, room = None\<rparr>,
      ctxDone = gone\<rparr>"

lemmas example_simps = exampleConfig_def exampleState_def exampleDirectory_def exampleWorld_def
  streamStationHandler_def relay_def selectCases_def fold_simps utf8_simps

subsection \<open>The stream handler\<close>

text \<open>
  Claim C1. In every run of the stream handler that returns, the gauge is incremented
  exactly when the run ends in one of the three streaming exits (stream completed, copy
  error taken from \<^verbatim>\<open>errChan\<close>, client cancellation); in that case the gauge events of the
  run are one increment followed by one decrement and nothing else; and the value of the
  gauge after the run equals its value before.
\<close>

theorem gauge_balance:
  assumes "out \<in> set (streamStationHandler config world stationName s0)"
    and "exitPath out \<noteq> NeverReturns"
  shows "(ActiveStreamsInc \<in> set (newEvents s0 out) \<longleftrightarrow>
            exitPath out = Completed \<or> exitPath out = Cancelled \<or> (\<exists>e. exitPath out = StreamError e))
         \<and> (ActiveStreamsInc \<in> set (newEvents s0 out) \<longrightarrow>
              gaugeEvents (newEvents s0 out) = [ActiveStreamsInc, ActiveStreamsDec])
         \<and> activeStreams (metrics (final out)) = activeStreams (metrics s0)"
  using assms(1)
proof (cases rule: streamStationHandler_outcome)
  case (stream stations targetStation req streamResp out')
  from stream(5) show ?thesis
  proof (cases rule: relay_outcome)
    case waits
    with stream(6) assms(2) show ?thesis by simp
  next
    case (selected sel)
    with stream(6) show ?thesis
      by (cases sel) (simp_all add: newEvents_def gaugeEvents_def isGauge_def)
  qed
qed (simp_all add: newEvents_def gaugeEvents_def isGauge_def)

text \<open>
  A station whose upstream breaks after two bytes while the client goes away: the
  \<^verbatim>\<open>select\<close> can take each of its three cases, and each run is balanced.
\<close>

theorem gauge_balance_witness:
  "map exitPath (streamStationHandler exampleConfig
       (exampleWorld exampleDirectory
          (Inr [([1, 2], None), ([], Some (ErrorString ''connection reset''))]) True)
       ''kexp'' exampleState)
     = [StreamError (ErrorString ''connection reset''), Cancelled, Completed]
   \<and> list_all (\<lambda>out. gaugeEvents (newEvents exampleState out) = [ActiveStreamsInc, ActiveStreamsDec]
                   \<and> activeStreams (metrics (final out)) = activeStreams (metrics exampleState))
       (streamStationHandler exampleConfig
          (exampleWorld exampleDirectory
             (Inr [([1, 2], None), ([], Some (ErrorString ''connection reset''))]) True)
          ''kexp'' exampleState)"
proof -
  let ?H = "streamStationHandler exampleConfig
       (exampleWorld exampleDirectory
          (Inr [([1, 2], None), ([], Some (ErrorString ''connection reset''))]) True)
       ''kexp'' exampleState"
  have X: "map exitPath ?H = [StreamError (ErrorString ''connection reset''), Cancelled, Completed]"
    by (simp add: example_simps run_simps)
  have "gaugeEvents (newEvents exampleState out) = [ActiveStreamsInc, ActiveStreamsDec]
          \<and> activeStreams (metrics (final out)) = activeStreams (metrics exampleState)"
    if "out \<in> set ?H" for out
  proof -
    from that have "exitPath out \<in> exitPath ` set ?H" by (rule imageI)
    then have "exitPath out \<in> set (map exitPath ?H)" by (simp only: set_map)
    with X have "exitPath out \<noteq> NeverReturns"
      and "exitPath out = Completed \<or> exitPath out = Cancelled \<or> (\<exists>e. exitPath out = StreamError e)"
      by auto
    with gauge_balance [OF that] show ?thesis by blast
  qed
  then have "list_all (\<lambda>out. gaugeEvents (newEvents exampleState out) = [ActiveStreamsInc, ActiveStreamsDec]
                   \<and> activeStreams (metrics (final out)) = activeStreams (metrics exampleState)) ?H"
    by (simp add: list_all_iff)
  with X show ?thesis by blast
qed

text \<open>
  Claim C10. A run in which the directory fetch fails, the directory cannot be parsed, or
  no station matches leaves the stream-error counter as it was; it ends on that exit, or,
  for a station name that is not valid UTF-8, in the panic before the fetch. Whenever a
  run changes the counter it adds exactly one, and the run ended because the upstream
  request could not be created, the upstream connection failed, or an error was taken
  from \<^verbatim>\<open>errChan\<close>; each of these exits is backed by the corresponding failure of the
  world (for the last one, an error signal of the copy goroutine).
\<close>

theorem stream_errors_only_on_stream_failures:
  assumes "out \<in> set (streamStationHandler config world stationName s0)"
  shows "((\<exists>e. http_Get world (APIEndpoint config) = Inl e) \<longrightarrow>
            (if ValidString stationName then exitPath out = FetchFailed
             else exitPath out = Panicked)
            \<and> streamErrors (metrics (final out)) = streamErrors (metrics s0))
         \<and> ((\<exists>e. http_Get world (APIEndpoint config) = Inr (Inl e)) \<longrightarrow>
            (if ValidString stationName then exitPath out = ParseFailed
             else exitPath out = Panicked)
            \<and> streamErrors (metrics (final out)) = streamErrors (metrics s0))
         \<and> ((\<exists>stations. http_Get world (APIEndpoint config) = Inr (Inr stations)
                \<and> findStation (unicodeFold world) stations stationName = None) \<longrightarrow>
            (if ValidString stationName then exitPath out = StationNotFound
             else exitPath out = Panicked)
            \<and> streamErrors (metrics (final out)) = streamErrors (metrics s0))
         \<and> (streamErrors (metrics (final out)) \<noteq> streamErrors (metrics s0) \<longrightarrow>
              streamErrors (metrics (final out)) = Suc (streamErrors (metrics s0))
              \<and> (exitPath out = RequestFailed \<or> exitPath out = ConnectFailed
                  \<or> (\<exists>e. exitPath out = StreamError e)))
         \<and> (exitPath out = RequestFailed \<longrightarrow>
              (\<exists>stations targetStation e. http_Get world (APIEndpoint config) = Inr (Inr stations)
                 \<and> findStation (unicodeFold world) stations stationName = Some targetStation
                 \<and> http_NewRequest world ''GET'' (URL targetStation) = Inl e))
         \<and> (exitPath out = ConnectFailed \<longrightarrow> (\<exists>req e. client_Do world req = Inl e))
         \<and> (\<forall>e. exitPath out = StreamError e \<longrightarrow>
              (\<exists>req streamResp. client_Do world req = Inr streamResp
                 \<and> SendErr e \<in> set (fst (copyTask (clientWriter world) (Body streamResp)))))"
  using assms
proof (cases rule: streamStationHandler_outcome)
  case panic
  then show ?thesis by simp
next
  case (fetch e)
  then show ?thesis by simp
next
  case (parse e)
  then show ?thesis by simp
next
  case (notfound stations)
  then show ?thesis by simp
next
  case (create stations targetStation e)
  then show ?thesis by simp
next
  case (connect stations targetStation req e)
  then show ?thesis by auto
next
  case (stream stations targetStation req streamResp out')
  from stream(5) show ?thesis
  proof (cases rule: relay_outcome)
    case waits
    with stream(1,2,6) show ?thesis by simp
  next
    case (selected sel)
    from selectCases_elem [OF selected(1)] consider
      (err) e where "sel = FromErrChan e"
        "SendErr e \<in> set (fst (copyTask (clientWriter world) (Body streamResp)))"
      | (gone) "sel = FromCtxDone" | (fin) "sel = FromDone"
      by blast
    then show ?thesis
    proof cases
      case (err e)
      with stream(4) have "\<exists>req streamResp. client_Do world req = Inr streamResp
                 \<and> SendErr e \<in> set (fst (copyTask (clientWriter world) (Body streamResp)))"
        by blast
      with err(1) selected(2) stream(1,2,6) show ?thesis by simp
    next
      case gone
      with selected(2) stream(1,2,6) show ?thesis by simp
    next
      case fin
      with selected(2) stream(1,2,6) show ?thesis by simp
    qed
  qed
qed

text \<open>A request for a station the directory does not list.\<close>

theorem stream_errors_only_on_stream_failures_witness:
  "http_Get (exampleWorld exampleDirectory (Inr []) False) (APIEndpoint exampleConfig)
     = Inr (Inr exampleDirectory)
   \<and> findStation (unicodeFold (exampleWorld exampleDirectory (Inr []) False)) exampleDirectory
        ''nosuchstation'' = None
   \<and> ValidString ''nosuchstation''
   \<and> streamStationHandler exampleConfig (exampleWorld exampleDirectory (Inr []) False)
        ''nosuchstation'' exampleState \<noteq> []
   \<and> list_all (\<lambda>out. exitPath out = StationNotFound
                   \<and> streamErrors (metrics (final out)) = streamErrors (metrics exampleState))
       (streamStationHandler exampleConfig (exampleWorld exampleDirectory (Inr []) False)
          ''nosuchstation'' exampleState)"
proof -
  let ?w = "exampleWorld exampleDirectory (Inr []) False"
  let ?H = "streamStationHandler exampleConfig ?w ''nosuchstation'' exampleState"
  have G: "http_Get ?w (APIEndpoint exampleConfig) = Inr (Inr exampleDirectory)"
    by (simp add: exampleWorld_def)
  have N: "findStation (unicodeFold ?w) exampleDirectory ''nosuchstation'' = None"
    by (simp add: exampleWorld_def exampleDirectory_def fold_simps utf8_simps)
  have V: "ValidString ''nosuchstation''" by (simp add: utf8_simps)
  have E: "?H \<noteq> []" by (simp add: example_simps)
  have "exitPath out = StationNotFound
        \<and> streamErrors (metrics (final out)) = streamErrors (metrics exampleState)"
    if "out \<in> set ?H" for out
    using stream_errors_only_on_stream_failures [OF that] G N V by (simp only: if_True) blast
  then show ?thesis using G N V E by (simp add: list_all_iff)
qed

text \<open>
  Claim C7, as the code has it. For a station name that is valid UTF-8, a run that ends
  before streaming begins (the gauge was never incremented) answers with one of five
  status and body pairs: the four of the claim and, when \<^verbatim>\<open>http.NewRequest\<close> rejects the
  station's URL, status 500 with \<open>{"error": "Failed to create stream request"}\<close>.
\<close>

theorem pre_stream_failures:
  assumes "out \<in> set (streamStationHandler config world stationName s0)"
    and "ValidString stationName"
    and "ActiveStreamsInc \<notin> set (newEvents s0 out)"
  shows "(replyStatus (reply out), replyBody (reply out)) \<in> set
           [(404, Some (JObject [(''error'', JString ''Station not found'')])),
            (500, Some (JObject [(''error'', JString ''Failed to fetch stations'')])),
            (500, Some (JObject [(''error'', JString ''Failed to parse stations'')])),
            (500, Some (JObject [(''error'', JString ''Failed to create stream request'')])),
            (500, Some (JObject [(''error'', JString ''Failed to connect to stream'')]))]"
  using assms(1)
proof (cases rule: streamStationHandler_outcome)
  case panic
  with assms(2) show ?thesis by simp
next
  case (stream stations targetStation req streamResp out')
  from stream(5) show ?thesis
  proof (cases rule: relay_outcome)
    case waits
    with stream(6) assms(3) show ?thesis by (simp add: newEvents_def)
  next
    case (selected sel)
    with stream(6) assms(3) show ?thesis by (cases sel) (simp_all add: newEvents_def)
  qed
qed (simp_all add: c_JSON_def gin_H_error_def)

text \<open>A refused upstream connection answers with the connect failure.\<close>

theorem pre_stream_failures_witness:
  "ValidString ''kexp''
   \<and> map (\<lambda>out. ActiveStreamsInc \<in> set (newEvents exampleState out))
       (streamStationHandler exampleConfig
          (exampleWorld exampleDirectory (Inl (ErrorString ''connection refused'')) False)
          ''kexp'' exampleState) = [False]
   \<and> list_all (\<lambda>out. (replyStatus (reply out), replyBody (reply out)) \<in> set
           [(404, Some (JObject [(''error'', JString ''Station not found'')])),
            (500, Some (JObject [(''error'', JString ''Failed to fetch stations'')])),
            (500, Some (JObject [(''error'', JString ''Failed to parse stations'')])),
            (500, Some (JObject [(''error'', JString ''Failed to create stream request'')])),
            (500, Some (JObject [(''error'', JString ''Failed to connect to stream'')]))])
       (streamStationHandler exampleConfig
          (exampleWorld exampleDirectory (Inl (ErrorString ''connection refused'')) False)
          ''kexp'' exampleState)"
proof -
  let ?H = "streamStationHandler exampleConfig
          (exampleWorld exampleDirectory (Inl (ErrorString ''connection refused'')) False)
          ''kexp'' exampleState"
  have V: "ValidString ''kexp''" by (simp add: utf8_simps)
  have X: "map (\<lambda>out. ActiveStreamsInc \<in> set (newEvents exampleState out)) ?H = [False]"
    by (simp add: example_simps newEvents_def)
  have "(replyStatus (reply out), replyBody (reply out)) \<in> set
           [(404, Some (JObject [(''error'', JString ''Station not found'')])),
            (500, Some (JObject [(''error'', JString ''Failed to fetch stations'')])),
            (500, Some (JObject [(''error'', JString ''Failed to parse stations'')])),
            (500, Some (JObject [(''error'', JString ''Failed to create stream request'')])),
            (500, Some (JObject [(''error'', JString ''Failed to connect to stream'')]))]"
    if "out \<in> set ?H" for out
  proof -
    from that have "(ActiveStreamsInc \<in> set (newEvents exampleState out))
        \<in> (\<lambda>out. ActiveStreamsInc \<in> set (newEvents exampleState out)) ` set ?H"
      by (rule imageI)
    then have "(ActiveStreamsInc \<in> set (newEvents exampleState out))
        \<in> set (map (\<lambda>out. ActiveStreamsInc \<in> set (newEvents exampleState out)) ?H)"
      by (simp only: set_map)
    with X have "ActiveStreamsInc \<notin> set (newEvents exampleState out)" by simp
    from pre_stream_failures [OF that V this] show ?thesis .
  qed
  then show ?thesis using X V by (simp only: list_all_iff) blast
qed

text \<open>
  Claim C7 as stated fails: for the station whose URL has no protocol scheme the request
  cannot be created, and the handler answers 500 with a body that is none of the four
  the claim lists.
\<close>

theorem pre_stream_failures_counterexample:
  "map (\<lambda>out. (replyStatus (reply out), replyBody (reply out)))
       (streamStationHandler exampleConfig (exampleWorld exampleDirectory (Inr []) False)
          ''broken'' exampleState)
     = [(500, Some (JObject [(''error'', JString ''Failed to create stream request'')]))]
   \<and> map (\<lambda>out. ActiveStreamsInc \<in> set (newEvents exampleState out))
       (streamStationHandler exampleConfig (exampleWorld exampleDirectory (Inr []) False)
          ''broken'' exampleState) = [False]
   \<and> (500, Some (JObject [(''error'', JString ''Failed to create stream request'')])) \<notin> set
           [(404 :: nat, Some (JObject [(''error'', JString ''Station not found'')])),
            (500, Some (JObject [(''error'', JString ''Failed to fetch stations'')])),
            (500, Some (JObject [(''error'', JString ''Failed to parse stations'')])),
            (500, Some (JObject [(''error'', JString ''Failed to connect to stream'')]))]"
  by (simp add: example_simps newEvents_def c_JSON_def gin_H_error_def)

subsection \<open>Station names that are not valid UTF-8\<close>

text \<open>
  For a station name that is valid UTF-8 the handler counts the request first: the first
  effect of every run, also one that waits forever, is the increment of the request
  counter under the name exactly as the client sent it, the directory fetch comes right
  after it, no other request-counter increment occurs, and the counter of that label ends
  one higher with all other labels unchanged.
\<close>

lemma request_counter_once:
  assumes "out \<in> set (streamStationHandler config world stationName s0)"
    and "ValidString stationName"
  shows "take 2 (newEvents s0 out) = [StationRequestsInc stationName, HttpGet (APIEndpoint config)]
         \<and> filter isStationRequestsInc (newEvents s0 out) = [StationRequestsInc stationName]
         \<and> stationRequests (metrics (final out))
             = (stationRequests (metrics s0))(stationName := Suc (stationRequests (metrics s0) stationName))"
  using assms(1)
proof (cases rule: streamStationHandler_outcome)
  case panic
  with assms(2) show ?thesis by simp
next
  case (stream stations targetStation req streamResp out')
  from stream(5) show ?thesis
  proof (cases rule: relay_outcome)
    case waits
    with stream(6) show ?thesis by (simp add: newEvents_def)
  next
    case (selected sel)
    with stream(6) show ?thesis
      by (cases sel) (simp_all add: newEvents_def)
  qed
qed (simp_all add: newEvents_def)

text \<open>A request for \<open>KEXP\<close> whose upstream refuses the connection is counted once.\<close>

lemma request_counter_once_example:
  "ValidString ''KEXP''
   \<and> map exitPath (streamStationHandler exampleConfig
       (exampleWorld exampleDirectory (Inl (ErrorString ''connection refused'')) False)
       ''KEXP'' exampleState) = [ConnectFailed]
   \<and> list_all (\<lambda>out. take 2 (newEvents exampleState out)
                     = [StationRequestsInc ''KEXP'', HttpGet (APIEndpoint exampleConfig)]
                   \<and> filter isStationRequestsInc (newEvents exampleState out)
                     = [StationRequestsInc ''KEXP'']
                   \<and> stationRequests (metrics (final out)) ''KEXP'' = 1)
       (streamStationHandler exampleConfig
          (exampleWorld exampleDirectory (Inl (ErrorString ''connection refused'')) False)
          ''KEXP'' exampleState)"
proof -
  let ?H = "streamStationHandler exampleConfig
       (exampleWorld exampleDirectory (Inl (ErrorString ''connection refused'')) False)
       ''KEXP'' exampleState"
  have V: "ValidString ''KEXP''" by (simp add: utf8_simps)
  have X: "map exitPath ?H = [ConnectFailed]"
    by (simp add: example_simps)
  have "take 2 (newEvents exampleState out)
          = [StationRequestsInc ''KEXP'', HttpGet (APIEndpoint exampleConfig)]
        \<and> filter isStationRequestsInc (newEvents exampleState out) = [StationRequestsInc ''KEXP'']
        \<and> stationRequests (metrics (final out)) ''KEXP'' = 1"
    if "out \<in> set ?H" for out
    using request_counter_once [OF that V] by (simp add: exampleState_def)
  then show ?thesis using X V by (simp add: list_all_iff)
qed

text \<open>
  Claim C9 at a station name that is not valid UTF-8. For \<^verbatim>\<open>GET /stream/%ff\<close> the station
  name is the single byte FF. \<^verbatim>\<open>WithLabelValues\<close> panics on it, so the run has no effect at
  all: the request counter is not incremented, the directory is not fetched, and the
  recovery middleware ends the request. The claim counts every request exactly once.
\<close>

theorem invalid_name_not_counted:
  "map (\<lambda>out. (exitPath out, newEvents exampleState out,
                 stationRequests (metrics (final out)) [CHR 0xFF]))
       (streamStationHandler exampleConfig (exampleWorld exampleDirectory (Inr []) False)
          [CHR 0xFF] exampleState)
     = [(Panicked, [], 0)]"
  by (simp add: example_simps newEvents_def)

text \<open>
  For a station name that is valid UTF-8: when the directory is fetched and parsed and no
  station name matches the requested name (in particular when the directory is empty),
  the handler answers once, with status 404 and the body
  \<open>{"error":"Station not found"}\<close>, the gauge keeps its value and no gauge event occurs.
\<close>

lemma not_found_reply:
  assumes "ValidString stationName"
    and "http_Get world (APIEndpoint config) = Inr (Inr stations)"
    and "\<forall>st \<in> set stations. \<not> EqualFold (unicodeFold world) (Name st) stationName"
  shows "map reply (streamStationHandler config world stationName s0)
           = [\<lparr>replyStatus = 404,
               replyHeader = [(''Content-Type'', ''application/json; charset=utf-8'')],
               replyBody = Some (JObject [(''error'', JString ''Station not found'')])\<rparr>]
         \<and> map (\<lambda>out. activeStreams (metrics (final out)))
               (streamStationHandler config world stationName s0) = [activeStreams (metrics s0)]
         \<and> map (\<lambda>out. gaugeEvents (newEvents s0 out))
               (streamStationHandler config world stationName s0) = [[]]"
proof -
  from assms(3) have "findStation (unicodeFold world) stations stationName = None"
    by (simp add: findStation_None_iff)
  with assms(1,2) have "streamStationHandler config world stationName s0
      = [closeAfter (APIEndpoint config) (failure 404 ''Station not found'' StationNotFound
           (emit (HttpGet (APIEndpoint config)) (stationRequests_Inc stationName s0)))]"
    by (simp add: streamStationHandler_def)
  then show ?thesis
    by (simp add: newEvents_def gaugeEvents_def isGauge_def c_JSON_def gin_H_error_def)
qed

text \<open>An unknown name against the example directory, and any name against an empty one.\<close>

lemma not_found_reply_example:
  "map reply (streamStationHandler exampleConfig (exampleWorld exampleDirectory (Inr []) False)
                   ''unknownstation'' exampleState)
       = [\<lparr>replyStatus = 404,
           replyHeader = [(''Content-Type'', ''application/json; charset=utf-8'')],
           replyBody = Some (JObject [(''error'', JString ''Station not found'')])\<rparr>]
   \<and> map reply (streamStationHandler exampleConfig (exampleWorld [] (Inr []) False)
                   ''KEXP'' exampleState)
       = [\<lparr>replyStatus = 404,
           replyHeader = [(''Content-Type'', ''application/json; charset=utf-8'')],
           replyBody = Some (JObject [(''error'', JString ''Station not found'')])\<rparr>]"
proof -
  let ?w = "exampleWorld exampleDirectory (Inr []) False"
  let ?e = "exampleWorld [] (Inr []) False"
  have V: "ValidString ''unknownstation''" "ValidString ''KEXP''" by (simp_all add: utf8_simps)
  have G: "http_Get ?w (APIEndpoint exampleConfig) = Inr (Inr exampleDirectory)"
    by (simp add: exampleWorld_def)
  have N: "\<forall>st \<in> set exampleDirectory.
             \<not> EqualFold (unicodeFold ?w) (Name st) ''unknownstation''"
    by (simp add: exampleWorld_def exampleDirectory_def fold_simps utf8_simps)
  have Ge: "http_Get ?e (APIEndpoint exampleConfig) = Inr (Inr [])"
    by (simp add: exampleWorld_def)
  have Ne: "\<forall>st \<in> set ([] :: RadioStation list).
              \<not> EqualFold (unicodeFold ?e) (Name st) ''KEXP''" by simp
  from not_found_reply [OF V(1) G N, of exampleState]
    not_found_reply [OF V(2) Ge Ne, of exampleState]
  show ?thesis by simp
qed

text \<open>
  Claim C6 at a station name that is not valid UTF-8. The byte FF matches no station of
  the example directory, yet \<^verbatim>\<open>GET /stream/%ff\<close> is not answered with 404 and the body
  \<open>{"error":"Station not found"}\<close>: the handler panics in its first statement and the
  recovery middleware answers with status 500 and no body.
\<close>

theorem invalid_name_reply:
  "list_all (\<lambda>st. \<not> EqualFold exampleFold (Name st) [CHR 0xFF]) exampleDirectory
   \<and> map reply (streamStationHandler exampleConfig
                   (exampleWorld exampleDirectory (Inr []) False) [CHR 0xFF] exampleState)
       = [\<lparr>replyStatus = 500, replyHeader = [], replyBody = None\<rparr>]"
  by (simp add: example_simps)

subsection \<open>Errors of the copy that the handler does not see\<close>

text \<open>
  Claim C2 at a copy that fails. The upstream connection breaks after two bytes. The
  copy returns the error, the goroutine sends it on \<^verbatim>\<open>errChan\<close>, and the deferred
  \<^verbatim>\<open>close(done)\<close> raises the completion signal as well: both signals are raised after a
  copy with an I/O error, where the claim has exactly one. With both channels ready the
  \<^verbatim>\<open>select\<close> may take either case, so the same request can also end as a completed
  stream: logged as \<open>Stream completed\<close>, status 200, error counter untouched.
\<close>

theorem failed_copy_raises_both_signals:
  "fst (io_Copy (NewWriterSize \<lparr>received = [], headerWritten = False, room = None\<rparr> (32 * 1024))
          [([1, 2], None), ([], Some (ErrorString ''connection reset''))])
     = Returns (Some (ErrorString ''connection reset''))
   \<and> fst (copyTask \<lparr>received = [], headerWritten = False, room = None\<rparr>
          [([1, 2], None), ([], Some (ErrorString ''connection reset''))])
     = [SendErr (ErrorString ''connection reset''), CloseDone]
   \<and> map (\<lambda>out. (exitPath out, replyStatus (reply out), streamErrors (metrics (final out)),
                   Log ''Stream completed'' \<in> set (newEvents exampleState out)))
       (streamStationHandler exampleConfig
          (exampleWorld exampleDirectory
             (Inr [([1, 2], None), ([], Some (ErrorString ''connection reset''))]) False)
          ''kexp'' exampleState)
     = [(StreamError (ErrorString ''connection reset''), 500, 1, False),
        (Completed, 200, 0, True)]"
  by (simp add: example_simps run_simps newEvents_def afterSelect_def closeAfter_def
      streamReply_def icyHeaders_def Header_Get_def)

text \<open>
  Claim C3 at a client connection that fails during the final flush. The upstream body
  has three bytes and ends; the client connection takes two more bytes and then fails.
  The copy ends without error (the bytes are still in the buffer), the final flush delivers
  two bytes and fails, and its result is dropped: the goroutine only closes \<^verbatim>\<open>done\<close>, the
  handler logs \<open>Stream completed\<close> with status 200 and an untouched error counter, and the
  client has received \<open>[1, 2]\<close> where the upstream body is \<open>[1, 2, 3]\<close>.
\<close>

theorem flush_failure_reported_as_completed:
  "upstreamBytes [([1, 2, 3], Some EOF)] = [1, 2, 3]
   \<and> fst (copyTask \<lparr>received = [], headerWritten = False, room = Some 2\<rparr> [([1, 2, 3], Some EOF)])
     = [CloseDone]
   \<and> map (\<lambda>out. (exitPath out, replyStatus (reply out), map_option received (delivered out),
                   streamErrors (metrics (final out)),
                   Log ''Stream completed'' \<in> set (newEvents exampleState out)))
       (streamStationHandler exampleConfig
          ((exampleWorld exampleDirectory (Inr [([1, 2, 3], Some EOF)]) False)
             \<lparr>clientWriter := \<lparr>received = [], headerWritten = False, room = Some 2\<rparr>\<rparr>)
          ''kexp'' exampleState)
     = [(Completed, 200, Some [1, 2], 0, True)]"
  by (simp add: example_simps run_simps newEvents_def afterSelect_def closeAfter_def
      streamReply_def)

subsection \<open>The station listing\<close>

text \<open>
  The listing. Appending to the \<^verbatim>\<open>nil\<close> slice gives the projected stations in order; with
  no station the slice stays \<^verbatim>\<open>nil\<close>.
\<close>

lemma projectStations_Some:
  "projectStations (Some xs) stations = Some (xs @ map (\<lambda>st. \<lparr>RName = Name st\<rparr>) stations)"
  by (induction stations arbitrary: xs) (simp_all add: append_slice_def)

lemma projectStations_None:
  "projectStations None stations =
     (if stations = [] then None else Some (map (\<lambda>st. \<lparr>RName = Name st\<rparr>) stations))"
  by (cases stations) (simp_all add: append_slice_def projectStations_Some)

text \<open>
  For a directory of at least one station the listing is the array of the claim: one
  object per station, in order, holding only the name.
\<close>

lemma getStationsHandler_nonempty:
  assumes "http_Get world (APIEndpoint config) = Inr (Inr stations)" and "stations \<noteq> []"
  shows "getStationsHandler config world
           = \<lparr>replyStatus = 200,
              replyHeader = [(''Content-Type'', ''application/json; charset=utf-8'')],
              replyBody = Some (JArray (map (\<lambda>st. JObject [(''name'', JString (Name st))]) stations))\<rparr>"
  using assms
  by (simp add: getStationsHandler_def projectStations_None json_slice_def c_JSON_def
      json_StationResponse_def comp_def)

text \<open>
  Claim C8 at an empty directory. The \<^verbatim>\<open>response\<close> slice is declared without a value and
  only grows by \<^verbatim>\<open>append\<close>, so for a directory without stations it is still \<^verbatim>\<open>nil\<close> when
  it is encoded: the body is the JSON value \<open>null\<close>, not an array of zero objects.
\<close>

theorem getStationsHandler_empty_directory:
  "getStationsHandler exampleConfig (exampleWorld [] (Inr []) False)
     = \<lparr>replyStatus = 200,
        replyHeader = [(''Content-Type'', ''application/json; charset=utf-8'')],
        replyBody = Some JNull\<rparr>"
  by (simp add: getStationsHandler_def exampleWorld_def json_slice_def c_JSON_def)

text \<open>
  The same for every gateway whose directory decodes to no station.
\<close>

lemma getStationsHandler_empty:
  assumes "http_Get world (APIEndpoint config) = Inr (Inr [])"
  shows "replyBody (getStationsHandler config world) = Some JNull"
  using assms by (simp add: getStationsHandler_def json_slice_def c_JSON_def)

end
